theory Spec2Isabelle
  imports Main "HOL-Library.AList"
begin

section \<open>Strings and errors\<close>

text \<open>
  JavaScript strings are modelled as \<^typ>\<open>string\<close>: sequences of code units below 256.
  A thrown exception or a rejected promise is a value \<open>Inl e\<close> of a sum type.
\<close>

datatype error = SyntaxError | Failure string

fun message :: "error \<Rightarrow> string" where
  "message SyntaxError = ''Invalid regular expression''"
| "message (Failure m) = m"

text \<open>
  \<open>s.replace(pat, rep)\<close> with a string \<open>pat\<close>: only the first occurrence is replaced.
  The replacement is taken as it is (the one used, \<open>.*\<close>, has no \<open>$\<close> sequence).
\<close>

fun replace :: "string \<Rightarrow> string \<Rightarrow> string \<Rightarrow> string" where
  "replace [] pat rep = (if pat = [] then rep else [])"
| "replace (c # cs) pat rep =
     (if take (length pat) (c # cs) = pat then rep @ drop (length pat) (c # cs)
      else c # replace cs pat rep)"

section \<open>Regular expressions: the fragment the key patterns use\<close>

text \<open>
  \<open>new RegExp(src)\<close> without flags. The model interprets the sources built from ordinary
  characters, \<open>.\<close>, the quantifier \<open>*\<close>, the alternation \<open>|\<close> and the assertions \<open>^\<close> and
  \<open>$\<close>. A source that contains one of the other syntax characters
  (backslash, \<open>+ ? ( ) [ ] { }\<close>) is handed to the parameter \<open>ext\<close>, which stands for the
  rest of the engine: it either throws (\<open>None\<close>) or yields the \<open>test\<close> function.
\<close>

definition line_terminator :: "char \<Rightarrow> bool" where
  "line_terminator c = (c = CHR 0x0A \<or> c = CHR 0x0D)"

definition beyond_char :: "char \<Rightarrow> bool" where
  "beyond_char c = (c \<in> set [CHR 0x5C, CHR ''+'', CHR ''?'', CHR ''('', CHR '')'',
                              CHR ''['', CHR '']'', CHR ''{'', CHR ''}''])"

definition syntax_char :: "char \<Rightarrow> bool" where
  "syntax_char c = (beyond_char c \<or> c \<in> set [CHR ''^'', CHR ''$'', CHR ''.'', CHR ''*'', CHR ''|''])"

datatype atom = Lit char | Dot

datatype item = Bol | Eol | One atom | Many atom

fun atom_ok :: "atom \<Rightarrow> char \<Rightarrow> bool" where
  "atom_ok (Lit a) c = (c = a)"
| "atom_ok Dot c = (\<not> line_terminator c)"

definition atom_of :: "char \<Rightarrow> atom" where
  "atom_of c = (if c = CHR ''.'' then Dot else Lit c)"

text \<open>
  One alternative (a source without \<open>|\<close>). A \<open>*\<close> that does not follow an atom
  is the syntax error "nothing to repeat": \<open>None\<close>.
\<close>

fun items :: "string \<Rightarrow> item list option" where
  "items [] = Some []"
| "items (c # cs) =
     (if c = CHR ''*'' then None
      else if c = CHR ''^'' then map_option (Cons Bol) (items cs)
      else if c = CHR ''$'' then map_option (Cons Eol) (items cs)
      else (case cs of
              [] \<Rightarrow> Some [One (atom_of c)]
            | d # ds \<Rightarrow>
                if d = CHR ''*'' then map_option (Cons (Many (atom_of c))) (items ds)
                else map_option (Cons (One (atom_of c))) (items (d # ds))))"

fun split_bar :: "string \<Rightarrow> string list" where
  "split_bar [] = [[]]"
| "split_bar (c # cs) =
     (if c = CHR ''|'' then [] # split_bar cs
      else (case split_bar cs of [] \<Rightarrow> [[c]] | a # as \<Rightarrow> (c # a) # as))"

text \<open>
  Matching one alternative at the current position; the flag says whether the position
  is the start of the input (for \<open>^\<close>), the string is the rest of the input (for \<open>$\<close>).
\<close>

fun accepts :: "item list \<Rightarrow> bool \<Rightarrow> string \<Rightarrow> bool" where
  "accepts [] b s = True"
| "accepts (Bol # ts) b s = (b \<and> accepts ts b s)"
| "accepts (Eol # ts) b s = (s = [] \<and> accepts ts b s)"
| "accepts (One a # ts) b [] = False"
| "accepts (One a # ts) b (c # cs) = (atom_ok a c \<and> accepts ts False cs)"
| "accepts (Many a # ts) b [] = accepts ts b []"
| "accepts (Many a # ts) b (c # cs) =
     (accepts ts b (c # cs) \<or> (atom_ok a c \<and> accepts (Many a # ts) False cs))"

text \<open>\<open>regex.test(key)\<close>: a match may start at any position of the key.\<close>

fun test_from :: "item list list \<Rightarrow> bool \<Rightarrow> string \<Rightarrow> bool" where
  "test_from alts b [] = list_ex (\<lambda>a. accepts a b []) alts"
| "test_from alts b (c # cs) =
     (list_ex (\<lambda>a. accepts a b (c # cs)) alts \<or> test_from alts False cs)"

definition test :: "item list list \<Rightarrow> string \<Rightarrow> bool" where
  "test alts key = test_from alts True key"

text \<open>The items of a run of ordinary characters.\<close>

definition lits :: "string \<Rightarrow> item list" where
  "lits p = map (\<lambda>c. One (Lit c)) p"

definition RegExp :: "(string \<Rightarrow> (string \<Rightarrow> bool) option) \<Rightarrow> string \<Rightarrow> error + (string \<Rightarrow> bool)" where
  "RegExp ext src =
     (if list_ex beyond_char src
      then (case ext src of None \<Rightarrow> Inl SyntaxError | Some t \<Rightarrow> Inr t)
      else (case those (map items (split_bar src)) of
              None \<Rightarrow> Inl SyntaxError
            | Some alts \<Rightarrow> Inr (test alts)))"

section \<open>The in-memory fallback client\<close>

text \<open>
  \<open>mockStorage\<close> is a JavaScript \<open>Map\<close>: insertion-ordered, \<open>set\<close> on a present key keeps its
  place. \<open>setTimeout\<close> is modelled by a list of pending timers (due time in milliseconds,
  key to delete) and a clock; time passes only in \<open>elapse\<close>.
\<close>

record mock =
  mockStorage :: "(string \<times> string) list"
  timers :: "(nat \<times> string) list"
  clock :: nat

definition empty_mock :: mock where
  "empty_mock = \<lparr>mockStorage = [], timers = [], clock = 0\<rparr>"

text \<open>The delay Node gives a timer: out of the range 1 .. 2^31 - 1 it is set to 1.\<close>

definition timeout_delay :: "int \<Rightarrow> nat" where
  "timeout_delay ms = (if ms < 1 \<or> 2147483647 < ms then 1 else nat ms)"

text \<open>\<open>mockStorage.get(key) || null\<close>: a falsy stored value (the empty string) gives null.\<close>

definition mock_get :: "string \<Rightarrow> mock \<Rightarrow> string option" where
  "mock_get key st =
     (case map_of (mockStorage st) key of
        None \<Rightarrow> None
      | Some v \<Rightarrow> if v = [] then None else Some v)"

text \<open>The third argument is \<open>options?.EX\<close>: \<open>None\<close> when no options or no \<open>EX\<close> are given.\<close>

definition mock_set :: "string \<Rightarrow> string \<Rightarrow> int option \<Rightarrow> mock \<Rightarrow> mock" where
  "mock_set key v ex st =
     (let st1 = st\<lparr>mockStorage := AList.update key v (mockStorage st)\<rparr>
      in case ex of
           None \<Rightarrow> st1
         | Some n \<Rightarrow>
             if n = 0 then st1
             else st1\<lparr>timers := timers st1 @ [(clock st1 + timeout_delay (n * 1000), key)]\<rparr>)"

definition mock_del :: "string \<Rightarrow> mock \<Rightarrow> nat \<times> mock" where
  "mock_del key st =
     (if key \<in> fst ` set (mockStorage st)
      then (1, st\<lparr>mockStorage := AList.delete key (mockStorage st)\<rparr>)
      else (0, st))"

definition mock_keys ::
  "(string \<Rightarrow> (string \<Rightarrow> bool) option) \<Rightarrow> string \<Rightarrow> mock \<Rightarrow> error + string list" where
  "mock_keys ext pattern st =
     (case RegExp ext (''^'' @ replace pattern ''*'' ''.*'' @ ''$'') of
        Inl e \<Rightarrow> Inl e
      | Inr t \<Rightarrow> Inr (filter t (map fst (mockStorage st))))"

text \<open>The keys \<open>keys(pattern)\<close> enumerates; none when it throws.\<close>

definition matched ::
  "(string \<Rightarrow> (string \<Rightarrow> bool) option) \<Rightarrow> string \<Rightarrow> mock \<Rightarrow> string list" where
  "matched ext pattern st = (case mock_keys ext pattern st of Inl e \<Rightarrow> [] | Inr ks \<Rightarrow> ks)"

text \<open>
  Time passes: every timer that is due fires and deletes its key; the others stay pending.
\<close>

definition elapse :: "nat \<Rightarrow> mock \<Rightarrow> mock" where
  "elapse d st =
     (let t = clock st + d;
          due = filter (\<lambda>p. fst p \<le> t) (timers st)
      in st\<lparr>mockStorage := filter (\<lambda>p. fst p \<notin> snd ` set due) (mockStorage st),
            timers := filter (\<lambda>p. \<not> fst p \<le> t) (timers st),
            clock := t\<rparr>)"

section \<open>The client interface\<close>

text \<open>
  \<open>redisClient\<close> is either the connected client or the fallback object: anything with the
  four operations. Each operation takes the client's state and returns the new one; a
  rejected promise is \<open>Inl\<close>.
\<close>

record 's client =
  cget :: "string \<Rightarrow> 's \<Rightarrow> (error + string option) \<times> 's"
  cset :: "string \<Rightarrow> string \<Rightarrow> int option \<Rightarrow> 's \<Rightarrow> (error + string) \<times> 's"
  cdel :: "string \<Rightarrow> 's \<Rightarrow> (error + nat) \<times> 's"
  ckeys :: "string \<Rightarrow> 's \<Rightarrow> (error + string list) \<times> 's"

definition mock_client :: "(string \<Rightarrow> (string \<Rightarrow> bool) option) \<Rightarrow> mock client" where
  "mock_client ext =
     \<lparr>cget = (\<lambda>key st. (Inr (mock_get key st), st)),
      cset = (\<lambda>key v ex st. (Inr ''OK'', mock_set key v ex st)),
      cdel = (\<lambda>key st. case mock_del key st of (n, st1) \<Rightarrow> (Inr n, st1)),
      ckeys = (\<lambda>pattern st. (mock_keys ext pattern st, st))\<rparr>"

text \<open>
  A client whose \<open>get\<close> always answers \<open>r\<close> and whose other operations are rejected
  with \<open>e\<close>: a connected client that lost its server, or one holding a fixed value.
\<close>

definition fixed_client :: "error + string option \<Rightarrow> error \<Rightarrow> unit client" where
  "fixed_client r e =
     \<lparr>cget = (\<lambda>key st. (r, st)),
      cset = (\<lambda>key v ex st. (Inl e, st)),
      cdel = (\<lambda>key st. (Inl e, st)),
      ckeys = (\<lambda>pattern st. (Inl e, st))\<rparr>"

text \<open>
  \<open>createRedisClient\<close>: the argument is the outcome of creating and connecting the real
  client; when that throws, the fallback object over a fresh \<open>Map\<close> is returned.
\<close>

definition createRedisClient ::
  "(string \<Rightarrow> (string \<Rightarrow> bool) option) \<Rightarrow> error + ('s client \<times> 's)
     \<Rightarrow> ('s client \<times> 's) + (mock client \<times> mock)" where
  "createRedisClient ext connected =
     (case connected of
        Inr c \<Rightarrow> Inl c
      | Inl err \<Rightarrow> Inr (mock_client ext, empty_mock))"

section \<open>The application: cache middleware, invalidation, routes\<close>

text \<open>\<open>req.method\<close> is the field \<open>method_name\<close>.\<close>

record request =
  method_name :: string
  originalUrl :: string

text \<open>
  What a handler passes to \<open>res.json\<close>: a value obtained from a collaborator (a document,
  an array of documents, the result of \<open>JSON.parse\<close>) or one of the two object literals
  of the routes. \<open>JSON.stringify\<close> and \<open>JSON.parse\<close> are parameters.
\<close>

datatype 'doc payload = Doc 'doc | ErrorObj string | MessageObj string

record 'doc codec =
  stringify :: "'doc payload \<Rightarrow> string"
  parse :: "string \<Rightarrow> 'doc option"

datatype log =
    CacheHit string | CacheMiss string | RedisCacheError error
  | MiddlewareError error | Clearing string | ClearError error

text \<open>
  What a request produced: the responses sent (status and body), the console lines, and
  for the middleware the number of times \<open>next()\<close> was called.
\<close>

record reply =
  sent :: "(nat \<times> string) list"
  logs :: "log list"

record served = reply +
  downstream :: nat

definition truthy :: "string option \<Rightarrow> bool" where
  "truthy c = (case c of None \<Rightarrow> False | Some s \<Rightarrow> s \<noteq> [])"

text \<open>The template literal \<open>`students:${req.originalUrl}`\<close>.\<close>

definition namespace :: string where
  "namespace = ''students:''"

definition cacheKey :: "request \<Rightarrow> string" where
  "cacheKey req = namespace @ originalUrl req"

definition in_namespace :: "string \<Rightarrow> bool" where
  "in_namespace key = (take (length namespace) key = namespace)"

definition default_expireTime :: int where
  "default_expireTime = 3600"

text \<open>
  \<open>cacheData(expireTime)(req, res, next)\<close> in two parts. The first runs up to the call of
  \<open>next()\<close>: it answers from the cache, or passes the request on, with \<open>res.json\<close> as it
  was (\<open>Unwrapped\<close>) or replaced by the caching wrapper (\<open>Wrapped\<close>); it carries the console
  lines printed so far. The second is the handler's one call \<open>res.status(s).json(data)\<close>,
  written \<open>nxt\<close>: through the wrapper it issues the write-back and then sends. The handler
  awaits its query between the two parts, so other requests can be served there.
\<close>

datatype pending = Unwrapped "log list" | Wrapped "log list"

definition cacheData_lookup ::
  "'doc codec \<Rightarrow> 's client \<Rightarrow> request \<Rightarrow> 's \<Rightarrow> (served + pending) \<times> 's" where
  "cacheData_lookup cd cl req st =
     (if method_name req \<noteq> ''GET''
      then (Inr (Unwrapped []), st)
      else
        let cacheKey = cacheKey req in
        case cget cl cacheKey st of
          (Inl err, st1) \<Rightarrow> (Inr (Unwrapped [MiddlewareError err]), st1)
        | (Inr cachedData, st1) \<Rightarrow>
            if truthy cachedData
            then (case Option.bind cachedData (parse cd) of
                    None \<Rightarrow>
                      (Inr (Unwrapped [CacheHit cacheKey, MiddlewareError SyntaxError]), st1)
                  | Some d \<Rightarrow>
                      (Inl \<lparr>sent = [(200, stringify cd (Doc d))],
                            logs = [CacheHit cacheKey], downstream = 0\<rparr>, st1))
            else (Inr (Wrapped [CacheMiss cacheKey]), st1))"

definition cacheData_json ::
  "'doc codec \<Rightarrow> 's client \<Rightarrow> int option \<Rightarrow> request \<Rightarrow> pending \<Rightarrow> nat \<times> 'doc payload \<Rightarrow> 's
     \<Rightarrow> served \<times> 's" where
  "cacheData_json cd cl expireTime req p nxt st =
     (let passed = (fst nxt, stringify cd (snd nxt)) in
      case p of
        Unwrapped lg \<Rightarrow> (\<lparr>sent = [passed], logs = lg, downstream = 1\<rparr>, st)
      | Wrapped lg \<Rightarrow>
          (case cset cl (cacheKey req) (stringify cd (snd nxt))
                  (Some (case expireTime of None \<Rightarrow> default_expireTime | Some n \<Rightarrow> n)) st of
             (r, st2) \<Rightarrow>
               (\<lparr>sent = [passed],
                 logs = lg @ (case r of Inl e \<Rightarrow> [RedisCacheError e] | Inr ok \<Rightarrow> []),
                 downstream = 1\<rparr>, st2)))"

text \<open>A request served with no other request in between.\<close>

definition cacheData ::
  "'doc codec \<Rightarrow> 's client \<Rightarrow> int option \<Rightarrow> request \<Rightarrow> nat \<times> 'doc payload \<Rightarrow> 's
     \<Rightarrow> served \<times> 's" where
  "cacheData cd cl expireTime req nxt st =
     (case cacheData_lookup cd cl req st of
        (Inl r, st1) \<Rightarrow> (r, st1)
      | (Inr p, st1) \<Rightarrow> cacheData_json cd cl expireTime req p nxt st1)"

text \<open>
  The read routes: what each handler passes to \<open>res.json\<close> for the outcome of its query
  (\<open>find\<close> or \<open>findById\<close>), and the middleware in front of it with the route's TTL.
\<close>

definition find_handler :: "error + 'doc \<Rightarrow> nat \<times> 'doc payload" where
  "find_handler found =
     (case found of
        Inr students \<Rightarrow> (200, Doc students)
      | Inl err \<Rightarrow> (500, ErrorObj (message err)))"

definition findById_handler :: "error + 'doc option \<Rightarrow> nat \<times> 'doc payload" where
  "findById_handler found =
     (case found of
        Inr None \<Rightarrow> (404, MessageObj ''Student not found'')
      | Inr (Some student) \<Rightarrow> (200, Doc student)
      | Inl err \<Rightarrow> (500, ErrorObj (message err)))"

definition get_students ::
  "'doc codec \<Rightarrow> 's client \<Rightarrow> request \<Rightarrow> error + 'doc \<Rightarrow> 's \<Rightarrow> served \<times> 's" where
  "get_students cd cl req found st = cacheData cd cl (Some 60) req (find_handler found) st"

definition get_student ::
  "'doc codec \<Rightarrow> 's client \<Rightarrow> request \<Rightarrow> error + 'doc option \<Rightarrow> 's \<Rightarrow> served \<times> 's" where
  "get_student cd cl req found st = cacheData cd cl (Some 60) req (findById_handler found) st"

definition search_students ::
  "'doc codec \<Rightarrow> 's client \<Rightarrow> request \<Rightarrow> error + 'doc \<Rightarrow> 's \<Rightarrow> served \<times> 's" where
  "search_students cd cl req found st = cacheData cd cl (Some 30) req (find_handler found) st"

definition students_by_grade ::
  "'doc codec \<Rightarrow> 's client \<Rightarrow> request \<Rightarrow> error + 'doc \<Rightarrow> 's \<Rightarrow> served \<times> 's" where
  "students_by_grade cd cl req found st = cacheData cd cl (Some 60) req (find_handler found) st"

text \<open>\<open>keys.map(key => redisClient.del(key))\<close>: every delete is issued, in order.\<close>

fun del_each :: "'s client \<Rightarrow> string list \<Rightarrow> 's \<Rightarrow> (error + nat) list \<times> 's" where
  "del_each cl [] st = ([], st)"
| "del_each cl (k # ks) st =
     (case cdel cl k st of
        (r, st1) \<Rightarrow> (case del_each cl ks st1 of (rs, st2) \<Rightarrow> (r # rs, st2)))"

fun first_rejection :: "(error + 'a) list \<Rightarrow> error option" where
  "first_rejection [] = None"
| "first_rejection (Inl e # rs) = Some e"
| "first_rejection (Inr x # rs) = first_rejection rs"

text \<open>
  What a mutation route does to the outside, in order: the cache operations it has called
  and awaited, and the response it has sent.
\<close>

datatype event = Keys_called string | Del_called string | Responded nat string

text \<open>
  \<open>clearCache\<close> in two parts: the call of \<open>keys\<close>, and what follows its \<open>await\<close>. The second
  part prints at once (the error of \<open>keys\<close>, or the line before the deletes) and, when the
  awaited \<open>Promise.all\<close> of the deletes rejects, once more after that.
  \<open>Promise.all\<close> of two \<open>clearCache\<close> calls issues both \<open>keys\<close> calls before either
  continuation runs, and both continuations run before either \<open>Promise.all\<close> settles.
\<close>

record clearing =
  at_once :: "log list"
  on_settle :: "log list"
  issued :: "event list"

definition after_keys ::
  "'s client \<Rightarrow> string \<Rightarrow> error + string list \<Rightarrow> 's \<Rightarrow> clearing \<times> 's" where
  "after_keys cl pattern r st =
     (case r of
        Inl e \<Rightarrow> (\<lparr>at_once = [ClearError e], on_settle = [], issued = []\<rparr>, st)
      | Inr ks \<Rightarrow>
          if ks = [] then (\<lparr>at_once = [], on_settle = [], issued = []\<rparr>, st)
          else (case del_each cl ks st of
                  (rs, st1) \<Rightarrow>
                    (\<lparr>at_once = [Clearing pattern],
                      on_settle = (case first_rejection rs of None \<Rightarrow> [] | Some e \<Rightarrow> [ClearError e]),
                      issued = map Del_called ks\<rparr>,
                     st1)))"

definition clearCache :: "'s client \<Rightarrow> string \<Rightarrow> 's \<Rightarrow> (log list \<times> event list) \<times> 's" where
  "clearCache cl pattern st =
     (case ckeys cl pattern st of
        (r, st1) \<Rightarrow>
          (case after_keys cl pattern r st1 of
             (c, st2) \<Rightarrow> ((at_once c @ on_settle c, Keys_called pattern # issued c), st2)))"

definition clearCache_both ::
  "'s client \<Rightarrow> string \<Rightarrow> string \<Rightarrow> 's \<Rightarrow> (log list \<times> event list) \<times> 's" where
  "clearCache_both cl p q st =
     (case ckeys cl p st of
        (rp, st1) \<Rightarrow>
          (case ckeys cl q st1 of
             (rq, st2) \<Rightarrow>
               (case after_keys cl p rp st2 of
                  (cp, st3) \<Rightarrow>
                    (case after_keys cl q rq st3 of
                       (cq, st4) \<Rightarrow>
                         ((at_once cp @ at_once cq @ on_settle cp @ on_settle cq,
                           [Keys_called p, Keys_called q] @ issued cp @ issued cq),
                          st4)))))"

definition collection_pattern :: string where
  "collection_pattern = ''students:/api/students*''"

definition resource_pattern :: "string \<Rightarrow> string" where
  "resource_pattern ident = ''students:/api/students/'' @ ident"

text \<open>
  The mutation routes. The storage collaborator is outside the cache layer: its outcome
  (\<open>save\<close>, \<open>findByIdAndUpdate\<close>, \<open>findByIdAndDelete\<close>) is an argument. Each route ends
  with its one call \<open>res.status(s).json(body)\<close>, after the events \<open>ev\<close> before it.
\<close>

definition answer :: "nat \<times> string \<Rightarrow> log list \<Rightarrow> event list \<Rightarrow> reply \<times> event list" where
  "answer r lg ev = (\<lparr>sent = [r], logs = lg\<rparr>, ev @ [Responded (fst r) (snd r)])"

definition post_students ::
  "'doc codec \<Rightarrow> 's client \<Rightarrow> error + 'doc \<Rightarrow> 's \<Rightarrow> (reply \<times> event list) \<times> 's" where
  "post_students cd cl saved st =
     (case saved of
        Inl err \<Rightarrow> (answer (400, stringify cd (ErrorObj (message err))) [] [], st)
      | Inr student \<Rightarrow>
          (case clearCache cl collection_pattern st of
             ((lg, ev), st1) \<Rightarrow> (answer (201, stringify cd (Doc student)) lg ev, st1)))"

definition put_student ::
  "'doc codec \<Rightarrow> 's client \<Rightarrow> string \<Rightarrow> error + 'doc option \<Rightarrow> 's
     \<Rightarrow> (reply \<times> event list) \<times> 's" where
  "put_student cd cl ident updated st =
     (case updated of
        Inl err \<Rightarrow> (answer (400, stringify cd (ErrorObj (message err))) [] [], st)
      | Inr None \<Rightarrow> (answer (404, stringify cd (MessageObj ''Student not found'')) [] [], st)
      | Inr (Some student) \<Rightarrow>
          (case clearCache_both cl (resource_pattern ident) collection_pattern st of
             ((lg, ev), st1) \<Rightarrow> (answer (200, stringify cd (Doc student)) lg ev, st1)))"

definition delete_student ::
  "'doc codec \<Rightarrow> 's client \<Rightarrow> string \<Rightarrow> error + 'doc option \<Rightarrow> 's
     \<Rightarrow> (reply \<times> event list) \<times> 's" where
  "delete_student cd cl ident deleted st =
     (case deleted of
        Inl err \<Rightarrow> (answer (500, stringify cd (ErrorObj (message err))) [] [], st)
      | Inr None \<Rightarrow> (answer (404, stringify cd (MessageObj ''Student not found'')) [] [], st)
      | Inr (Some student) \<Rightarrow>
          (case clearCache_both cl (resource_pattern ident) collection_pattern st of
             ((lg, ev), st1) \<Rightarrow>
               (answer (200, stringify cd (MessageObj ''Student deleted successfully'')) lg ev,
                st1)))"

text \<open>
  A mutation, for statements about all three routes at once: \<open>mutate_run\<close> is the route
  with its events, \<open>mutate\<close> its reply and final state, \<open>timeline\<close> its events.
\<close>

datatype 'doc mutation =
    Create "error + 'doc"
  | Update string "error + 'doc option"
  | Delete string "error + 'doc option"

fun mutate_run ::
  "'doc codec \<Rightarrow> 's client \<Rightarrow> 'doc mutation \<Rightarrow> 's \<Rightarrow> (reply \<times> event list) \<times> 's" where
  "mutate_run cd cl (Create saved) st = post_students cd cl saved st"
| "mutate_run cd cl (Update ident updated) st = put_student cd cl ident updated st"
| "mutate_run cd cl (Delete ident deleted) st = delete_student cd cl ident deleted st"

definition mutate :: "'doc codec \<Rightarrow> 's client \<Rightarrow> 'doc mutation \<Rightarrow> 's \<Rightarrow> reply \<times> 's" where
  "mutate cd cl m st = (fst (fst (mutate_run cd cl m st)), snd (mutate_run cd cl m st))"


fun succeeded :: "'doc mutation \<Rightarrow> bool" where
  "succeeded (Create saved) = (case saved of Inl e \<Rightarrow> False | Inr d \<Rightarrow> True)"
| "succeeded (Update ident r) = (case r of Inr (Some d) \<Rightarrow> True | _ \<Rightarrow> False)"
| "succeeded (Delete ident r) = (case r of Inr (Some d) \<Rightarrow> True | _ \<Rightarrow> False)"

fun patterns_of :: "'doc mutation \<Rightarrow> string list" where
  "patterns_of (Create saved) = [collection_pattern]"
| "patterns_of (Update ident r) = [resource_pattern ident, collection_pattern]"
| "patterns_of (Delete ident r) = [resource_pattern ident, collection_pattern]"

fun ident_of :: "'doc mutation \<Rightarrow> string" where
  "ident_of (Create saved) = []"
| "ident_of (Update ident r) = ident"
| "ident_of (Delete ident r) = ident"

text \<open>The response the storage outcome alone determines.\<close>

fun storage_response :: "'doc codec \<Rightarrow> 'doc mutation \<Rightarrow> nat \<times> string" where
  "storage_response cd (Create saved) =
     (case saved of
        Inl err \<Rightarrow> (400, stringify cd (ErrorObj (message err)))
      | Inr student \<Rightarrow> (201, stringify cd (Doc student)))"
| "storage_response cd (Update ident r) =
     (case r of
        Inl err \<Rightarrow> (400, stringify cd (ErrorObj (message err)))
      | Inr None \<Rightarrow> (404, stringify cd (MessageObj ''Student not found''))
      | Inr (Some student) \<Rightarrow> (200, stringify cd (Doc student)))"
| "storage_response cd (Delete ident r) =
     (case r of
        Inl err \<Rightarrow> (500, stringify cd (ErrorObj (message err)))
      | Inr None \<Rightarrow> (404, stringify cd (MessageObj ''Student not found''))
      | Inr (Some student) \<Rightarrow> (200, stringify cd (MessageObj ''Student deleted successfully'')))"

text \<open>
  Codecs and engines for evaluating the model on examples. In \<open>text_codec\<close> a JavaScript
  value is represented by its JSON text; it is applied to JSON texts only, where it agrees
  with \<open>JSON.stringify\<close> and \<open>JSON.parse\<close>. \<open>no_ext\<close> is used only with sources of the
  interpreted fragment, where the engine parameter is never consulted.
\<close>

definition text_codec :: "string codec" where
  "text_codec =
     \<lparr>stringify = (\<lambda>p. case p of
                      Doc d \<Rightarrow> d
                    | ErrorObj m \<Rightarrow> ''{\"error\":\"'' @ m @ ''\"}''
                    | MessageObj m \<Rightarrow> ''{\"message\":\"'' @ m @ ''\"}''),
      parse = (\<lambda>s. if s = ''undefined'' then None else Some s)\<rparr>"

definition no_ext :: "string \<Rightarrow> (string \<Rightarrow> bool) option" where
  "no_ext src = None"


text \<open>
  What \<open>JSON\<close> gives for a value that \<open>JSON.stringify\<close> turns into a text: the text is not
  empty, \<open>JSON.parse\<close> accepts it, and the parsed value serializes to the same text. The
  handlers pass documents, arrays of documents and object literals, which are such values.
\<close>

definition json_text :: "'doc codec \<Rightarrow> string \<Rightarrow> bool" where
  "json_text cd v =
     (v \<noteq> [] \<and> (case parse cd v of None \<Rightarrow> False | Some d \<Rightarrow> stringify cd (Doc d) = v))"

definition serializable :: "'doc codec \<Rightarrow> 'doc payload \<Rightarrow> bool" where
  "serializable cd p = json_text cd (stringify cd p)"

text \<open>
  The life of the fallback store under the application: requests served one after the
  other (a read through the middleware, a mutation) and time passing, from the empty \<open>Map\<close>.
\<close>

datatype 'doc action =
    Read request "int option" "nat \<times> 'doc payload"
  | Write "'doc mutation"
  | Wait nat

fun step ::
  "'doc codec \<Rightarrow> (string \<Rightarrow> (string \<Rightarrow> bool) option) \<Rightarrow> 'doc action \<Rightarrow> mock \<Rightarrow> mock" where
  "step cd ext (Read req ex nxt) st = snd (cacheData cd (mock_client ext) ex req nxt st)"
| "step cd ext (Write m) st = snd (mutate cd (mock_client ext) m st)"
| "step cd ext (Wait d) st = elapse d st"

fun serializable_step :: "'doc codec \<Rightarrow> 'doc action \<Rightarrow> bool" where
  "serializable_step cd (Read req ex nxt) = serializable cd (snd nxt)"
| "serializable_step cd (Write m) = True"
| "serializable_step cd (Wait d) = True"

definition history ::
  "'doc codec \<Rightarrow> (string \<Rightarrow> (string \<Rightarrow> bool) option) \<Rightarrow> 'doc action list \<Rightarrow> mock" where
  "history cd ext steps = fold (step cd ext) steps empty_mock"


section \<open>The definitions unfolded\<close>

lemma cacheData_unfold:
  "cacheData cd cl expireTime req nxt st =
     (let passed = (fst nxt, stringify cd (snd nxt)) in
      if method_name req \<noteq> ''GET''
      then (\<lparr>sent = [passed], logs = [], downstream = 1\<rparr>, st)
      else
        let cacheKey = cacheKey req in
        case cget cl cacheKey st of
          (Inl err, st1) \<Rightarrow>
            (\<lparr>sent = [passed], logs = [MiddlewareError err], downstream = 1\<rparr>, st1)
        | (Inr cachedData, st1) \<Rightarrow>
            if truthy cachedData
            then (case Option.bind cachedData (parse cd) of
                    None \<Rightarrow>
                      (\<lparr>sent = [passed],
                        logs = [CacheHit cacheKey, MiddlewareError SyntaxError],
                        downstream = 1\<rparr>, st1)
                  | Some d \<Rightarrow>
                      (\<lparr>sent = [(200, stringify cd (Doc d))],
                        logs = [CacheHit cacheKey], downstream = 0\<rparr>, st1))
            else
              (case cset cl cacheKey (stringify cd (snd nxt))
                      (Some (case expireTime of None \<Rightarrow> default_expireTime | Some n \<Rightarrow> n)) st1 of
                 (r, st2) \<Rightarrow>
                   (\<lparr>sent = [passed],
                     logs = CacheMiss cacheKey #
                            (case r of Inl e \<Rightarrow> [RedisCacheError e] | Inr ok \<Rightarrow> []),
                     downstream = 1\<rparr>, st2)))"
  by (simp add: cacheData_def cacheData_lookup_def cacheData_json_def Let_def
      split: prod.splits sum.splits option.splits)

lemma mutate_simps:
  "mutate cd cl (Create saved) st
     = (fst (fst (post_students cd cl saved st)), snd (post_students cd cl saved st))"
  "mutate cd cl (Update ident updated) st
     = (fst (fst (put_student cd cl ident updated st)), snd (put_student cd cl ident updated st))"
  "mutate cd cl (Delete ident deleted) st
     = (fst (fst (delete_student cd cl ident deleted st)), snd (delete_student cd cl ident deleted st))"
  by (simp_all add: mutate_def)

section \<open>Properties of the pattern matcher\<close>


lemma replace_first_star:
  "CHR ''*'' \<notin> set pre \<Longrightarrow> replace (pre @ CHR ''*'' # rest) ''*'' ''.*'' = pre @ ''.*'' @ rest"
  by (induction pre) auto

lemma replace_no_star:
  "CHR ''*'' \<notin> set p \<Longrightarrow> replace p ''*'' ''.*'' = p"
  by (induction p) auto

lemma split_bar_none: "CHR ''|'' \<notin> set s \<Longrightarrow> split_bar s = [s]"
  by (induction s) auto

lemma plain_facts:
  "\<not> syntax_char c \<Longrightarrow> c \<noteq> CHR ''*'' \<and> c \<noteq> CHR ''^'' \<and> c \<noteq> CHR ''$'' \<and> c \<noteq> CHR ''.''
     \<and> c \<noteq> CHR ''|'' \<and> \<not> beyond_char c"
  by (auto simp: syntax_char_def)

lemma items_plain:
  "\<forall>c\<in>set p. \<not> syntax_char c \<Longrightarrow> (rest = [] \<or> hd rest \<noteq> CHR ''*'')
     \<Longrightarrow> items (p @ rest) = map_option ((@) (lits p)) (items rest)"
proof (induction p)
  case Nil
  then show ?case by (simp add: lits_def option.map_ident)
next
  case (Cons c p)
  have c: "c \<noteq> CHR ''*''" "c \<noteq> CHR ''^''" "c \<noteq> CHR ''$''" "atom_of c = Lit c"
    using Cons.prems(1) by (auto dest: plain_facts simp: atom_of_def)
  have IH: "items (p @ rest) = map_option ((@) (lits p)) (items rest)"
    using Cons by simp
  show ?case
  proof (cases "p @ rest")
    case Nil
    then show ?thesis using c by (simp add: lits_def)
  next
    case (Cons d ds)
    have "d \<noteq> CHR ''*''"
    proof (cases p)
      case Nil
      then show ?thesis using Cons \<open>rest = [] \<or> hd rest \<noteq> CHR ''*''\<close> by auto
    next
      case (Cons e es)
      then have "d = e" using \<open>p @ rest = d # ds\<close> by simp
      then show ?thesis using Cons.prems(1) Cons plain_facts[of e] \<open>\<forall>c\<in>set (c # p). \<not> syntax_char c\<close> by auto
    qed
    then show ?thesis using c IH Cons
      by (simp add: lits_def option.map_comp comp_def)
  qed
qed

lemma accepts_flag: "Bol \<notin> set ts \<Longrightarrow> accepts ts b s = accepts ts b' s"
  by (induction ts b s arbitrary: b' rule: accepts.induct) auto

lemma accepts_lits:
  "Bol \<notin> set ts \<Longrightarrow> accepts (lits p @ ts) b s \<longleftrightarrow> (\<exists>r. s = p @ r \<and> accepts ts b r)"
proof (induction p arbitrary: s b)
  case Nil
  then show ?case by (simp add: lits_def)
next
  case (Cons c p)
  show ?case
  proof (cases s)
    case Nil
    then show ?thesis by (simp add: lits_def)
  next
    case (Cons d ds)
    have "accepts (lits p @ ts) False ds \<longleftrightarrow> (\<exists>r. ds = p @ r \<and> accepts ts b r)"
      using Cons.IH[OF Cons.prems, of False ds] accepts_flag[OF Cons.prems, of False _ b] by simp
    then show ?thesis using Cons by (auto simp: lits_def)
  qed
qed

lemma accepts_many:
  "Bol \<notin> set ts \<Longrightarrow>
   accepts (Many a # ts) b s \<longleftrightarrow> (\<exists>m r. s = m @ r \<and> (\<forall>x\<in>set m. atom_ok a x) \<and> accepts ts b r)"
proof (induction s arbitrary: b)
  case Nil
  then show ?case by simp
next
  case (Cons c cs)
  have IH: "accepts (Many a # ts) False cs \<longleftrightarrow>
        (\<exists>m r. cs = m @ r \<and> (\<forall>x\<in>set m. atom_ok a x) \<and> accepts ts b r)"
    using Cons.IH[OF Cons.prems, of False] accepts_flag[OF Cons.prems, of False _ b] by simp
  show ?case
  proof
    assume "accepts (Many a # ts) b (c # cs)"
    then consider "accepts ts b (c # cs)" | "atom_ok a c" "accepts (Many a # ts) False cs"
      by auto
    then show "\<exists>m r. c # cs = m @ r \<and> (\<forall>x\<in>set m. atom_ok a x) \<and> accepts ts b r"
    proof cases
      case 1
      then have "c # cs = [] @ (c # cs) \<and> (\<forall>x\<in>set []. atom_ok a x) \<and> accepts ts b (c # cs)" by simp
      then show ?thesis by blast
    next
      case 2
      then obtain m r where "cs = m @ r" "\<forall>x\<in>set m. atom_ok a x" "accepts ts b r"
        using IH by blast
      then have "c # cs = (c # m) @ r \<and> (\<forall>x\<in>set (c # m). atom_ok a x) \<and> accepts ts b r"
        using 2 by simp
      then show ?thesis by blast
    qed
  next
    assume "\<exists>m r. c # cs = m @ r \<and> (\<forall>x\<in>set m. atom_ok a x) \<and> accepts ts b r"
    then obtain m r where mr: "c # cs = m @ r" "\<forall>x\<in>set m. atom_ok a x" "accepts ts b r"
      by blast
    show "accepts (Many a # ts) b (c # cs)"
    proof (cases m)
      case Nil
      then have "accepts ts b (c # cs)" using mr by simp
      then show ?thesis by simp
    next
      case (Cons e es)
      then have "c = e" "cs = es @ r" using mr by auto
      then have "accepts (Many a # ts) False cs" using IH mr Cons by auto
      then show ?thesis using mr Cons \<open>c = e\<close> by simp
    qed
  qed
qed

lemma accepts_eol: "accepts [Eol] b s \<longleftrightarrow> s = []"
  by simp

lemma test_from_bol_False: "test_from [Bol # ts] False s = False"
  by (induction s) auto

lemma test_bol: "test [Bol # ts] key = accepts ts True key"
  by (cases key) (auto simp: test_def test_from_bol_False)


lemma no_beyond: "\<forall>c\<in>set p. \<not> syntax_char c \<Longrightarrow> \<not> list_ex beyond_char p"
  by (auto simp: list_ex_iff syntax_char_def)

lemma compile_wild:
  assumes "\<forall>c\<in>set pre. \<not> syntax_char c" "\<forall>c\<in>set suf. \<not> syntax_char c"
  shows "RegExp ext (''^'' @ pre @ ''.*'' @ suf @ ''$'')
           = Inr (test [Bol # lits pre @ Many Dot # lits suf @ [Eol]])"
proof -
  let ?src = "''^'' @ pre @ ''.*'' @ suf @ ''$''"
  have nb: "\<not> list_ex beyond_char ?src"
    using assms by (auto simp: list_ex_iff syntax_char_def beyond_char_def)
  have bar: "CHR ''|'' \<notin> set ?src"
    using assms by (auto dest: plain_facts)
  have i3: "items (suf @ ''$'') = Some (lits suf @ [Eol])"
    using items_plain[OF assms(2), of "''$''"] by simp
  have i2: "items (''.*'' @ suf @ ''$'') = Some (Many Dot # lits suf @ [Eol])"
    using i3 by (simp add: atom_of_def)
  have i1: "items (pre @ ''.*'' @ suf @ ''$'') = Some (lits pre @ Many Dot # lits suf @ [Eol])"
    using items_plain[OF assms(1), of "''.*'' @ suf @ ''$''"] i2 by simp
  have "items ?src = Some (Bol # lits pre @ Many Dot # lits suf @ [Eol])"
    using i1 by simp
  then show ?thesis
    using nb split_bar_none[OF bar] by (simp add: RegExp_def)
qed

lemma bol_free: "Bol \<notin> set (lits p @ [Eol])" "Bol \<notin> set (Many a # lits p @ [Eol])"
  by (auto simp: lits_def)

lemma test_wild:
  "test [Bol # lits pre @ Many Dot # lits suf @ [Eol]] key
     \<longleftrightarrow> (\<exists>mid. key = pre @ mid @ suf \<and> (\<forall>c\<in>set mid. \<not> line_terminator c))"
proof -
  have a: "\<And>b s. accepts (lits suf @ [Eol]) b s \<longleftrightarrow> s = suf"
    using accepts_lits[of "[Eol]" suf] by auto
  have b: "\<And>b s. accepts (Many Dot # lits suf @ [Eol]) b s
              \<longleftrightarrow> (\<exists>m. s = m @ suf \<and> (\<forall>x\<in>set m. \<not> line_terminator x))"
    using accepts_many[OF bol_free(1), where a = Dot and p1 = suf] a by auto
  show ?thesis
    unfolding test_bol using accepts_lits[OF bol_free(2), where p = pre and b = True and s = key and a1 = Dot and p1 = suf] b by auto
qed

lemma mock_keys_wild:
  assumes "\<forall>c\<in>set pre. \<not> syntax_char c" "\<forall>c\<in>set suf. \<not> syntax_char c"
  shows "mock_keys ext (pre @ ''*'' @ suf) st =
           Inr (filter (\<lambda>k. \<exists>mid. k = pre @ mid @ suf \<and> (\<forall>c\<in>set mid. \<not> line_terminator c))
                  (map fst (mockStorage st)))"
proof -
  have "CHR ''*'' \<notin> set pre" using assms(1) by (auto dest: plain_facts)
  then have r: "replace (pre @ ''*'' @ suf) ''*'' ''.*'' = pre @ ''.*'' @ suf"
    using replace_first_star[of pre suf] by simp
  have t: "test [Bol # lits pre @ Many Dot # lits suf @ [Eol]]
             = (\<lambda>k. \<exists>mid. k = pre @ mid @ suf \<and> (\<forall>c\<in>set mid. \<not> line_terminator c))"
    by (rule ext) (rule test_wild)
  show ?thesis
    unfolding mock_keys_def r using compile_wild[OF assms, of ext] t
    by simp
qed

lemma compile_wild_rep:
  assumes "\<forall>x\<in>set pre. \<not> syntax_char x" "\<forall>x\<in>set suf. \<not> syntax_char x" "\<not> syntax_char c"
  shows "RegExp ext (''^'' @ pre @ ''.*'' @ suf @ [c] @ ''*'' @ ''$'')
           = Inr (test [Bol # lits pre @ Many Dot # lits suf @ [Many (Lit c), Eol]])"
proof -
  let ?src = "''^'' @ pre @ ''.*'' @ suf @ [c] @ ''*'' @ ''$''"
  have nb: "\<not> list_ex beyond_char ?src"
    using assms by (auto simp: list_ex_iff syntax_char_def beyond_char_def)
  have bar: "CHR ''|'' \<notin> set ?src"
    using assms by (auto dest: plain_facts)
  have c: "c \<noteq> CHR ''*''" "c \<noteq> CHR ''^''" "c \<noteq> CHR ''$''" "atom_of c = Lit c"
    using assms(3) by (auto dest: plain_facts simp: atom_of_def)
  have i4: "items ([c] @ ''*'' @ ''$'') = Some [Many (Lit c), Eol]"
    using c by simp
  have i3: "items (suf @ [c] @ ''*'' @ ''$'') = Some (lits suf @ [Many (Lit c), Eol])"
    using items_plain[OF assms(2), of "[c] @ ''*'' @ ''$''"] i4 c by simp
  have i2: "items (''.*'' @ suf @ [c] @ ''*'' @ ''$'') = Some (Many Dot # lits suf @ [Many (Lit c), Eol])"
    using i3 by (simp add: atom_of_def)
  have i1: "items (pre @ ''.*'' @ suf @ [c] @ ''*'' @ ''$'')
              = Some (lits pre @ Many Dot # lits suf @ [Many (Lit c), Eol])"
    using items_plain[OF assms(1), of "''.*'' @ suf @ [c] @ ''*'' @ ''$''"] i2 by simp
  have "items ?src = Some (Bol # lits pre @ Many Dot # lits suf @ [Many (Lit c), Eol])"
    using i1 by simp
  then show ?thesis
    using nb split_bar_none[OF bar] by (simp add: RegExp_def)
qed

lemma all_same: "(\<forall>x\<in>set m. x = c) \<longleftrightarrow> m = replicate (length m) c"
  by (induction m) auto

lemma test_wild_rep:
  "test [Bol # lits pre @ Many Dot # lits suf @ [Many (Lit c), Eol]] key
     \<longleftrightarrow> (\<exists>mid n. key = pre @ mid @ suf @ replicate n c \<and> (\<forall>x\<in>set mid. \<not> line_terminator x))"
proof -
  have bf: "Bol \<notin> set [Eol]" "Bol \<notin> set [Many (Lit c), Eol]"
    "Bol \<notin> set (lits suf @ [Many (Lit c), Eol])"
    "Bol \<notin> set (Many Dot # lits suf @ [Many (Lit c), Eol])"
    by (auto simp: lits_def)
  have a: "\<And>b s. accepts [Many (Lit c), Eol] b s \<longleftrightarrow> (\<exists>n. s = replicate n c)"
  proof -
    fix b s
    have "accepts [Many (Lit c), Eol] b s \<longleftrightarrow> (\<forall>x\<in>set s. x = c)"
      using accepts_many[OF bf(1), where a = "Lit c" and b = b and s = s] by auto
    also have "\<dots> \<longleftrightarrow> (\<exists>n. s = replicate n c)"
      using all_same[of s c] by auto
    finally show "accepts [Many (Lit c), Eol] b s \<longleftrightarrow> (\<exists>n. s = replicate n c)" .
  qed
  have b: "\<And>b s. accepts (lits suf @ [Many (Lit c), Eol]) b s \<longleftrightarrow> (\<exists>n. s = suf @ replicate n c)"
    using accepts_lits[OF bf(2), where p = suf] a by auto
  have c: "\<And>b s. accepts (Many Dot # lits suf @ [Many (Lit c), Eol]) b s
              \<longleftrightarrow> (\<exists>m n. s = m @ suf @ replicate n c \<and> (\<forall>x\<in>set m. \<not> line_terminator x))"
    using accepts_many[OF bf(3), where a = Dot] b by auto
  show ?thesis
    unfolding test_bol using accepts_lits[OF bf(4), where p = pre and b = True and s = key] c
    by auto
qed

lemma plain_collection: "\<forall>c\<in>set ''students:/api/students''. \<not> syntax_char c"
  by (simp add: syntax_char_def beyond_char_def)

section \<open>The fallback store: enumerating keys by pattern\<close>

text \<open>
  The pattern \<open>x|y*\<close> has one wildcard, yet the key \<open>ay\<close> is returned: the source
  \<open>^x|y.*$\<close> is an alternation, and its second branch matches inside the key. And the
  key made of \<open>a\<close>, a line feed and \<open>b\<close> is not returned for \<open>a*\<close>: the dot of \<open>.*\<close> does
  not match a line terminator.
\<close>

theorem keys_alternation_or_newline:
  "mock_keys no_ext ''x|y*'' \<lparr>mockStorage = [(''ay'', ''v'')], timers = [], clock = 0\<rparr> = Inr [''ay'']
   \<and> mock_keys no_ext ''a*'' \<lparr>mockStorage = [([CHR ''a'', CHR 0x0A, CHR ''b''], ''v'')], timers = [], clock = 0\<rparr>
       = Inr []"
  by (simp add: mock_keys_def RegExp_def beyond_char_def test_def atom_of_def line_terminator_def)

text \<open>
  Claim C5, as the code has it. For a pattern with one wildcard whose other characters are
  not regular-expression syntax characters, \<open>keys\<close> returns, in insertion order, exactly
  the current keys that consist of the text before the wildcard, then any characters other
  than line terminators, then the text after the wildcard: the match covers the full key.
  In particular, over a store holding exactly the keys \<open>students:/api/students\<close>,
  \<open>students:/api/students/123\<close> and \<open>other:/foo\<close>, the pattern
  \<open>students:/api/students*\<close> returns exactly the two student keys.
\<close>

theorem keys_single_wildcard_anchored:
  "((\<forall>c\<in>set pre. \<not> syntax_char c) \<and> (\<forall>c\<in>set suf. \<not> syntax_char c) \<longrightarrow>
      mock_keys ext (pre @ ''*'' @ suf) st =
        Inr (filter (\<lambda>k. \<exists>mid. k = pre @ mid @ suf \<and> (\<forall>c\<in>set mid. \<not> line_terminator c))
               (map fst (mockStorage st))))
   \<and> (fst ` set (mockStorage st2) = {''students:/api/students'', ''students:/api/students/123'', ''other:/foo''}
        \<longrightarrow> (\<exists>ks. mock_keys ext ''students:/api/students*'' st2 = Inr ks
                  \<and> set ks = {''students:/api/students'', ''students:/api/students/123''}))"
proof (intro conjI impI)
  assume "(\<forall>c\<in>set pre. \<not> syntax_char c) \<and> (\<forall>c\<in>set suf. \<not> syntax_char c)"
  then show "mock_keys ext (pre @ ''*'' @ suf) st =
        Inr (filter (\<lambda>k. \<exists>mid. k = pre @ mid @ suf \<and> (\<forall>c\<in>set mid. \<not> line_terminator c))
               (map fst (mockStorage st)))"
    using mock_keys_wild[of pre suf ext st] by simp
next
  let ?P = "\<lambda>k. \<exists>mid. k = ''students:/api/students'' @ mid @ [] \<and> (\<forall>c\<in>set mid. \<not> line_terminator c)"
  assume ks: "fst ` set (mockStorage st2)
      = {''students:/api/students'', ''students:/api/students/123'', ''other:/foo''}"
  have m: "mock_keys ext ''students:/api/students*'' st2 = Inr (filter ?P (map fst (mockStorage st2)))"
    using mock_keys_wild[OF plain_collection, of "[]" ext st2] by simp
  have p1: "?P ''students:/api/students''" by simp
  have "''students:/api/students/123'' = ''students:/api/students'' @ ''/123'' @ []
          \<and> (\<forall>c\<in>set ''/123''. \<not> line_terminator c)"
    by (simp add: line_terminator_def)
  then have p2: "?P ''students:/api/students/123''" by blast
  have p3: "\<not> ?P ''other:/foo''" by simp
  have "set (filter ?P (map fst (mockStorage st2)))
          = {k \<in> {''students:/api/students'', ''students:/api/students/123'', ''other:/foo''}. ?P k}"
    using ks by auto
  also have "\<dots> = {''students:/api/students'', ''students:/api/students/123''}"
    using p1 p2 p3 by blast
  finally show "\<exists>ks. mock_keys ext ''students:/api/students*'' st2 = Inr ks
                  \<and> set ks = {''students:/api/students'', ''students:/api/students/123''}"
    using m by simp
qed

theorem keys_single_wildcard_anchored_witness:
  "list_all (\<lambda>c. \<not> syntax_char c) ''students:/api/students'' \<and> list_all (\<lambda>c. \<not> syntax_char c) ''''
   \<and> fst ` set (mockStorage \<lparr>mockStorage = [(''students:/api/students'', ''[]''),
          (''students:/api/students/123'', ''{}''), (''other:/foo'', ''x'')], timers = [], clock = 0\<rparr>)
       = {''students:/api/students'', ''students:/api/students/123'', ''other:/foo''}
   \<and> mock_keys no_ext ''students:/api/students*'' \<lparr>mockStorage = [(''students:/api/students'', ''[]''),
          (''students:/api/students/123'', ''{}''), (''other:/foo'', ''x'')], timers = [], clock = 0\<rparr>
       = Inr [''students:/api/students'', ''students:/api/students/123'']"
  using keys_single_wildcard_anchored [of "''students:/api/students''" "''''" no_ext
      "\<lparr>mockStorage = [(''students:/api/students'', ''[]''),
          (''students:/api/students/123'', ''{}''), (''other:/foo'', ''x'')], timers = [], clock = 0\<rparr>"
      "\<lparr>mockStorage = [(''students:/api/students'', ''[]''),
          (''students:/api/students/123'', ''{}''), (''other:/foo'', ''x'')], timers = [], clock = 0\<rparr>"]
  by (simp add: mock_keys_def RegExp_def beyond_char_def syntax_char_def test_def atom_of_def line_terminator_def)

lemma items_nothing_to_repeat:
  assumes "\<forall>x\<in>set pre. \<not> syntax_char x"
  shows "items (''^'' @ pre @ ''.**'' @ rest) = None"
proof -
  have "items (''.**'' @ rest) = None"
    by (simp add: atom_of_def)
  then have "items (pre @ ''.**'' @ rest) = None"
    using items_plain[OF assms, of "''.**'' @ rest"] by simp
  then show ?thesis by simp
qed

lemma keys_double_star:
  assumes "\<forall>x\<in>set pre. \<not> syntax_char x" "\<not> list_ex beyond_char rest" "CHR ''|'' \<notin> set rest"
  shows "mock_keys ext (pre @ ''**'' @ rest) st = Inl SyntaxError"
proof -
  have "CHR ''*'' \<notin> set pre" using assms(1) by (auto dest: plain_facts)
  then have r: "replace (pre @ ''**'' @ rest) ''*'' ''.*'' = pre @ ''.**'' @ rest"
    using replace_first_star[of pre "''*'' @ rest"] by simp
  let ?src = "''^'' @ pre @ ''.**'' @ rest @ ''$''"
  have nb: "\<not> list_ex beyond_char ?src"
    using assms(1,2) by (auto simp: list_ex_iff syntax_char_def beyond_char_def)
  have bar: "CHR ''|'' \<notin> set ?src"
    using assms(1,3) by (auto dest: plain_facts)
  have "items ?src = None"
    using items_nothing_to_repeat[OF assms(1), of "rest @ ''$''"] by simp
  then have "RegExp ext ?src = Inl SyntaxError"
    using nb split_bar_none[OF bar] by (simp add: RegExp_def)
  then show ?thesis
    unfolding mock_keys_def r by simp
qed

text \<open>
  In the pattern \<open>a*b*\<close> the second star is not a literal character: the keys \<open>ab\<close> and
  \<open>axbb\<close>, which contain no star, are returned. In \<open>a.c*\<close> the dot is not literal either:
  the key \<open>abc\<close> is returned. The first star does not stand for any characters: the key
  made of \<open>a\<close>, a line feed and \<open>b\<close> is not returned for \<open>a*b*\<close>. And for the pattern
  \<open>a**\<close> the key \<open>a**\<close> is not returned: \<open>keys\<close> throws a SyntaxError.
\<close>

theorem later_star_repeats_preceding:
  "mock_keys no_ext ''a*b*'' \<lparr>mockStorage = [(''ab'', ''v''), (''axbb'', ''v''), (''ab*'', ''v'')], timers = [], clock = 0\<rparr>
      = Inr [''ab'', ''axbb'', ''ab*'']
   \<and> mock_keys no_ext ''a.c*'' \<lparr>mockStorage = [(''abc'', ''v'')], timers = [], clock = 0\<rparr> = Inr [''abc'']
   \<and> mock_keys no_ext ''a*b*'' \<lparr>mockStorage = [([CHR ''a'', CHR 0x0A, CHR ''b''], ''v'')], timers = [], clock = 0\<rparr>
      = Inr []
   \<and> mock_keys no_ext ''a**'' \<lparr>mockStorage = [(''a**'', ''v'')], timers = [], clock = 0\<rparr> = Inl SyntaxError"
  by (simp add: mock_keys_def RegExp_def beyond_char_def test_def atom_of_def line_terminator_def)

text \<open>
  Claim C9, as the code has it. Only the first star of the pattern is substituted, by
  \<open>.*\<close>, and the result is compiled as a regular expression with nothing escaped. In a
  pattern \<open>pre*suf c*\<close> whose other characters (\<open>pre\<close>, \<open>suf\<close>, \<open>c\<close>) are not
  regular-expression syntax characters, those characters are matched literally, the first
  star stands for any characters other than line terminators, and the second star is the
  repetition operator on \<open>c\<close>: the keys returned are those made of \<open>pre\<close>, such
  characters, \<open>suf\<close> and any number of \<open>c\<close>. In a pattern \<open>pre**rest\<close> (\<open>pre\<close> as before,
  \<open>rest\<close> without \<open>|\<close>, backslash and \<open>+ ? ( ) [ ] { }\<close>) the second star has nothing to
  repeat and \<open>keys\<close> throws a SyntaxError.
\<close>

theorem keys_first_star_only:
  "(CHR ''*'' \<notin> set pre \<longrightarrow> replace (pre @ ''*'' @ rest) ''*'' ''.*'' = pre @ ''.*'' @ rest)
   \<and> ((\<forall>x\<in>set pre. \<not> syntax_char x) \<and> (\<forall>x\<in>set suf. \<not> syntax_char x) \<and> \<not> syntax_char c \<longrightarrow>
        mock_keys ext (pre @ ''*'' @ suf @ [c] @ ''*'') st =
          Inr (filter (\<lambda>k. \<exists>mid n. k = pre @ mid @ suf @ replicate n c
                             \<and> (\<forall>x\<in>set mid. \<not> line_terminator x))
                 (map fst (mockStorage st))))
   \<and> ((\<forall>x\<in>set pre. \<not> syntax_char x) \<and> \<not> list_ex beyond_char rest \<and> CHR ''|'' \<notin> set rest \<longrightarrow>
        mock_keys ext (pre @ ''**'' @ rest) st = Inl SyntaxError)"
proof (intro conjI impI)
  assume "CHR ''*'' \<notin> set pre"
  then show "replace (pre @ ''*'' @ rest) ''*'' ''.*'' = pre @ ''.*'' @ rest"
    using replace_first_star[of pre rest] by simp
next
  assume a: "(\<forall>x\<in>set pre. \<not> syntax_char x) \<and> (\<forall>x\<in>set suf. \<not> syntax_char x) \<and> \<not> syntax_char c"
  then have p: "\<forall>x\<in>set pre. \<not> syntax_char x" and s: "\<forall>x\<in>set suf. \<not> syntax_char x"
    and c: "\<not> syntax_char c" by simp_all
  have "CHR ''*'' \<notin> set pre" using p by (auto dest: plain_facts)
  then have r: "replace (pre @ ''*'' @ suf @ [c] @ ''*'') ''*'' ''.*'' = pre @ ''.*'' @ suf @ [c] @ ''*''"
    using replace_first_star[of pre "suf @ [c] @ ''*''"] by simp
  have t: "test [Bol # lits pre @ Many Dot # lits suf @ [Many (Lit c), Eol]]
             = (\<lambda>k. \<exists>mid n. k = pre @ mid @ suf @ replicate n c \<and> (\<forall>x\<in>set mid. \<not> line_terminator x))"
    by (rule ext) (rule test_wild_rep)
  show "mock_keys ext (pre @ ''*'' @ suf @ [c] @ ''*'') st =
          Inr (filter (\<lambda>k. \<exists>mid n. k = pre @ mid @ suf @ replicate n c
                             \<and> (\<forall>x\<in>set mid. \<not> line_terminator x))
                 (map fst (mockStorage st)))"
    unfolding mock_keys_def r using compile_wild_rep[OF p s c, of ext] t
    by simp
next
  assume "(\<forall>x\<in>set pre. \<not> syntax_char x) \<and> \<not> list_ex beyond_char rest \<and> CHR ''|'' \<notin> set rest"
  then show "mock_keys ext (pre @ ''**'' @ rest) st = Inl SyntaxError"
    using keys_double_star[of pre rest ext st] by simp
qed

theorem keys_first_star_only_witness:
  "CHR ''*'' \<notin> set ''a'' \<and> replace (''a'' @ ''*'' @ ''b*'') ''*'' ''.*'' = ''a.*b*''
   \<and> list_all (\<lambda>x. \<not> syntax_char x) ''a'' \<and> list_all (\<lambda>x. \<not> syntax_char x) '''' \<and> \<not> syntax_char CHR ''b''
   \<and> \<not> list_ex beyond_char ''b*'' \<and> CHR ''|'' \<notin> set ''b*''
   \<and> mock_keys no_ext (''a'' @ ''*'' @ '''' @ [CHR ''b''] @ ''*'')
        \<lparr>mockStorage = [(''ab'', ''v''), (''axbb'', ''v''), (''ba'', ''v'')], timers = [], clock = 0\<rparr>
       = Inr [''ab'', ''axbb'']
   \<and> mock_keys no_ext (''a'' @ ''**'' @ ''b*'')
        \<lparr>mockStorage = [(''ab'', ''v''), (''axbb'', ''v''), (''ba'', ''v'')], timers = [], clock = 0\<rparr>
       = Inl SyntaxError"
  using keys_first_star_only [where pre = "''a''" and suf = "''''" and c = "CHR ''b''" and ext = no_ext
      and rest = "''b*''"
      and st = "\<lparr>mockStorage = [(''ab'', ''v''), (''axbb'', ''v''), (''ba'', ''v'')], timers = [], clock = 0\<rparr>"]
  by (simp add: mock_keys_def RegExp_def beyond_char_def syntax_char_def test_def atom_of_def line_terminator_def)

section \<open>Properties of the fallback store\<close>

lemma map_of_filter_out: "k \<in> S \<Longrightarrow> map_of (filter (\<lambda>p. fst p \<notin> S) xs) k = None"
  by (induction xs) auto

lemma elapse_due:
  assumes "(due, k) \<in> set (timers st)" "due \<le> clock st + d"
  shows "mock_get k (elapse d st) = None"
proof -
  have "k \<in> snd ` set (filter (\<lambda>p. fst p \<le> clock st + d) (timers st))"
    using assms by force
  then show ?thesis
    by (simp add: elapse_def mock_get_def Let_def map_of_filter_out)
qed

lemma elapse_pending:
  "(due, k) \<in> set (timers st) \<Longrightarrow> clock st + d < due \<Longrightarrow> (due, k) \<in> set (timers (elapse d st))"
  by (simp add: elapse_def Let_def)

lemma clock_elapse: "clock (elapse d st) = clock st + d"
  by (simp add: elapse_def Let_def)

lemma clock_mock_set: "clock (mock_set k v ex st) = clock st"
  by (simp add: mock_set_def Let_def split: option.splits)

lemma timers_mock_set:
  "n \<noteq> 0 \<Longrightarrow> timers (mock_set k v (Some n) st) = timers st @ [(clock st + timeout_delay (n * 1000), k)]"
  by (simp add: mock_set_def Let_def)

lemma timers_mock_set_keeps: "p \<in> set (timers st) \<Longrightarrow> p \<in> set (timers (mock_set k v ex st))"
  by (simp add: mock_set_def Let_def split: option.splits)

lemma storage_mock_set: "mockStorage (mock_set k v ex st) = AList.update k v (mockStorage st)"
  by (simp add: mock_set_def Let_def split: option.splits)

lemma mock_get_set: "v \<noteq> [] \<Longrightarrow> mock_get k (mock_set k v ex st) = Some v"
  by (simp add: mock_get_def storage_mock_set update_conv')

lemma timeout_delay_le: "0 < t \<Longrightarrow> timeout_delay (t * 1000) \<le> nat (1000 * t)"
  unfolding timeout_delay_def by (cases "t * 1000 < 1 \<or> 2147483647 < t * 1000") auto

section \<open>The fallback store: reads after writes\<close>

text \<open>
  Writing the empty string and reading it back gives the absent indicator, not the value
  written: \<open>mockStorage.get(key) || null\<close> takes the falsy stored value for a missing one.
\<close>

theorem set_empty_value_reads_absent:
  "mock_get ''k'' (mock_set ''k'' [] None empty_mock) = None"
  by (simp add: mock_get_def mock_set_def empty_mock_def)

text \<open>
  Claim C4, as the code has it. The fallback client is what \<open>createRedisClient\<close> returns
  when connecting fails. For every key and every non-empty value, \<open>get\<close> after \<open>set\<close>
  (with or without a TTL, before any time passes) returns the value written; \<open>del\<close> of a
  present key returns 1 and the key reads absent afterwards; \<open>del\<close> of an absent key
  returns 0 and changes nothing; \<open>get\<close> of a missing key returns the absent indicator,
  and \<open>get\<close> never rejects.
\<close>

theorem fallback_read_your_writes:
  "(v \<noteq> [] \<longrightarrow> mock_get k (mock_set k v ex st) = Some v)
   \<and> (k1 \<in> fst ` set (mockStorage st1) \<longrightarrow>
        fst (mock_del k1 st1) = 1 \<and> mock_get k1 (snd (mock_del k1 st1)) = None)
   \<and> (k2 \<notin> fst ` set (mockStorage st2) \<longrightarrow> mock_del k2 st2 = (0, st2) \<and> mock_get k2 st2 = None)
   \<and> cget (mock_client ext) k st = (Inr (mock_get k st), st)
   \<and> createRedisClient ext (Inl err :: error + (unit client \<times> unit)) = Inr (mock_client ext, empty_mock)"
proof (intro conjI impI)
  show "mock_get k (mock_set k v ex st) = Some v" if "v \<noteq> []"
    using that by (rule mock_get_set)
  show "fst (mock_del k1 st1) = 1" if "k1 \<in> fst ` set (mockStorage st1)"
    using that by (simp add: mock_del_def)
  show "mock_get k1 (snd (mock_del k1 st1)) = None" if "k1 \<in> fst ` set (mockStorage st1)"
    using that by (simp add: mock_del_def mock_get_def delete_conv)
  show "mock_del k2 st2 = (0, st2)" if "k2 \<notin> fst ` set (mockStorage st2)"
    using that by (simp add: mock_del_def)
  show "mock_get k2 st2 = None" if "k2 \<notin> fst ` set (mockStorage st2)"
  proof -
    have "map_of (mockStorage st2) k2 = None"
      using that by (simp add: map_of_eq_None_iff)
    then show ?thesis by (simp add: mock_get_def)
  qed
  show "cget (mock_client ext) k st = (Inr (mock_get k st), st)"
    by (simp add: mock_client_def)
  show "createRedisClient ext (Inl err :: error + (unit client \<times> unit)) = Inr (mock_client ext, empty_mock)"
    by (simp add: createRedisClient_def)
qed

theorem fallback_read_your_writes_witness:
  "''v'' \<noteq> [] \<and> mock_get ''k'' (mock_set ''k'' ''v'' (Some 60) empty_mock) = Some ''v''
   \<and> ''k'' \<in> fst ` set (mockStorage (mock_set ''k'' ''v'' None empty_mock))
   \<and> fst (mock_del ''k'' (mock_set ''k'' ''v'' None empty_mock)) = 1
   \<and> mock_get ''k'' (snd (mock_del ''k'' (mock_set ''k'' ''v'' None empty_mock))) = None
   \<and> ''k'' \<notin> fst ` set (mockStorage empty_mock)
   \<and> mock_del ''k'' empty_mock = (0, empty_mock) \<and> mock_get ''k'' empty_mock = None"
  using fallback_read_your_writes [of "''v''" "''k''" "Some 60" empty_mock "''k''"
      "mock_set ''k'' ''v'' None empty_mock" "''k''" empty_mock]
  by (simp add: mock_set_def empty_mock_def)

section \<open>The fallback store: expiry\<close>

text \<open>
  A key written with a TTL of 10 s and overwritten after 5 s with a TTL of 20 s has two
  pending removals, due at 10 s and at 25 s: the overwriting \<open>set\<close> schedules its own.
  Both fire: a value written without TTL at 12 s, after the first removal, is present then
  and removed by the second one at 25 s.
\<close>

theorem overwrite_schedules_second_removal:
  "timers (mock_set ''k'' ''b'' (Some 20) (elapse 5000 (mock_set ''k'' ''a'' (Some 10) empty_mock)))
     = [(10000, ''k''), (25000, ''k'')]
   \<and> mock_get ''k'' (mock_set ''k'' ''c'' None (elapse 7000
        (mock_set ''k'' ''b'' (Some 20) (elapse 5000 (mock_set ''k'' ''a'' (Some 10) empty_mock)))))
     = Some ''c''
   \<and> mock_get ''k'' (elapse 14000 (mock_set ''k'' ''c'' None (elapse 7000
        (mock_set ''k'' ''b'' (Some 20) (elapse 5000 (mock_set ''k'' ''a'' (Some 10) empty_mock))))))
     = None"
  by (simp add: mock_set_def elapse_def empty_mock_def mock_get_def timeout_delay_def Let_def)

text \<open>
  Claim C7, as the code has it. An entry written with a TTL of \<open>t > 0\<close> seconds is absent
  from \<open>get\<close> once \<open>t\<close> seconds have passed. Every \<open>set\<close> with a non-zero TTL schedules
  one more deferred removal of its key and cancels none: the removals pending before stay
  pending. So when the key is overwritten before expiry, whatever the TTL of the overwriting
  \<open>set\<close>, the original removal still fires at its own time and removes the newer value.
\<close>

theorem ttl_removal_per_set:
  "(0 < t \<and> nat (1000 * t) \<le> d \<longrightarrow> mock_get k (elapse d (mock_set k v (Some t) st)) = None)
   \<and> (t \<noteq> 0 \<longrightarrow> timers (mock_set k v (Some t) st)
                   = timers st @ [(clock st + timeout_delay (t * 1000), k)])
   \<and> (t \<noteq> 0 \<and> d1 < timeout_delay (t * 1000) \<and> timeout_delay (t * 1000) \<le> d1 + d2 \<longrightarrow>
        mock_get k (elapse d2 (mock_set k v2 ex2 (elapse d1 (mock_set k v (Some t) st)))) = None)"
proof (intro conjI impI)
  assume a: "0 < t \<and> nat (1000 * t) \<le> d"
  let ?s = "mock_set k v (Some t) st"
  have "(clock st + timeout_delay (t * 1000), k) \<in> set (timers ?s)"
    using a by (simp add: timers_mock_set)
  moreover have "clock st + timeout_delay (t * 1000) \<le> clock ?s + d"
    using a timeout_delay_le[of t] by (simp add: clock_mock_set)
  ultimately show "mock_get k (elapse d ?s) = None"
    by (rule elapse_due)
next
  assume "t \<noteq> 0"
  then show "timers (mock_set k v (Some t) st) = timers st @ [(clock st + timeout_delay (t * 1000), k)]"
    by (rule timers_mock_set)
next
  assume a: "t \<noteq> 0 \<and> d1 < timeout_delay (t * 1000) \<and> timeout_delay (t * 1000) \<le> d1 + d2"
  let ?s1 = "mock_set k v (Some t) st"
  let ?due = "clock st + timeout_delay (t * 1000)"
  let ?s2 = "mock_set k v2 ex2 (elapse d1 ?s1)"
  have "(?due, k) \<in> set (timers ?s1)"
    using a by (simp add: timers_mock_set)
  then have "(?due, k) \<in> set (timers (elapse d1 ?s1))"
    using a by (intro elapse_pending) (simp_all add: clock_mock_set)
  then have "(?due, k) \<in> set (timers ?s2)"
    by (rule timers_mock_set_keeps)
  moreover have "?due \<le> clock ?s2 + d2"
    using a by (simp add: clock_mock_set clock_elapse)
  ultimately show "mock_get k (elapse d2 ?s2) = None"
    by (rule elapse_due)
qed

theorem ttl_removal_per_set_witness:
  "(0::int) < 1 \<and> nat (1000 * 1) \<le> (1000::nat)
   \<and> mock_get ''k'' (elapse 1000 (mock_set ''k'' ''a'' (Some 1) empty_mock)) = None
   \<and> (1::int) \<noteq> 0
   \<and> timers (mock_set ''k'' ''a'' (Some 1) empty_mock) = [(1000, ''k'')]
   \<and> (400::nat) < timeout_delay (1 * 1000) \<and> timeout_delay (1 * 1000) \<le> 400 + 600
   \<and> mock_get ''k'' (elapse 600 (mock_set ''k'' ''b'' (Some 60) (elapse 400
         (mock_set ''k'' ''a'' (Some 1) empty_mock)))) = None"
  using ttl_removal_per_set [of 1 1000 "''k''" "''a''" empty_mock 400 600 "''b''" "Some 60"]
  by (simp add: empty_mock_def timeout_delay_def)

section \<open>The empty string as a cached value\<close>

text \<open>
  Claim C10. For every key whose stored value is the empty string, \<open>get\<close> of the fallback
  store returns the absent indicator. For every client, when the lookup of a GET request
  answers the empty string (the only falsy string), the middleware does not serve it: it
  logs a miss, calls the downstream handler once and sends that handler's response.
\<close>

theorem empty_cached_string_is_a_miss:
  "(map_of (mockStorage st) k = Some [] \<longrightarrow> mock_get k st = None)
   \<and> (method_name req = ''GET'' \<and> cget cl (cacheKey req) s = (Inr (Some []), s1) \<longrightarrow>
        downstream (fst (cacheData cd cl ex req nxt s)) = 1
        \<and> sent (fst (cacheData cd cl ex req nxt s)) = [(fst nxt, stringify cd (snd nxt))]
        \<and> CacheMiss (cacheKey req) \<in> set (logs (fst (cacheData cd cl ex req nxt s))))"
  by (simp add: mock_get_def cacheData_unfold truthy_def Let_def split: prod.splits)

theorem empty_cached_string_is_a_miss_witness:
  "map_of (mockStorage \<lparr>mockStorage = [(''k'', [])], timers = [], clock = 0\<rparr>) ''k'' = Some []
   \<and> mock_get ''k'' \<lparr>mockStorage = [(''k'', [])], timers = [], clock = 0\<rparr> = None
   \<and> method_name \<lparr>method_name = ''GET'', originalUrl = ''/api/students''\<rparr> = ''GET''
   \<and> cget (fixed_client (Inr (Some [])) (Failure ''down''))
        (cacheKey \<lparr>method_name = ''GET'', originalUrl = ''/api/students''\<rparr>) ()
       = (Inr (Some []), ())
   \<and> downstream (fst (cacheData text_codec (fixed_client (Inr (Some [])) (Failure ''down'')) (Some 60)
        \<lparr>method_name = ''GET'', originalUrl = ''/api/students''\<rparr> (200, Doc ''[]'') ())) = 1"
  using empty_cached_string_is_a_miss [of "\<lparr>mockStorage = [(''k'', [])], timers = [], clock = 0\<rparr>" "''k''"
      "\<lparr>method_name = ''GET'', originalUrl = ''/api/students''\<rparr>"
      "fixed_client (Inr (Some [])) (Failure ''down'')" "()" "()" text_codec "Some 60" "(200, Doc ''[]'')"]
  by (simp add: fixed_client_def)

section \<open>Invalidation over the fallback store\<close>

lemma delete_as_filter: "AList.delete k xs = filter (\<lambda>p. fst p \<noteq> k) xs"
  by (induction xs) auto

lemma mock_del_snd: "snd (mock_del k st) = st\<lparr>mockStorage := filter (\<lambda>p. fst p \<noteq> k) (mockStorage st)\<rparr>"
proof (cases "k \<in> fst ` set (mockStorage st)")
  case True
  then show ?thesis by (simp add: mock_del_def delete_as_filter)
next
  case False
  then have "filter (\<lambda>p. fst p \<noteq> k) (mockStorage st) = mockStorage st"
    by (auto simp: filter_id_conv)
  then show ?thesis using False by (simp add: mock_del_def)
qed

lemma cdel_mock: "cdel (mock_client ext) k st = (Inr (fst (mock_del k st)), snd (mock_del k st))"
  by (simp add: mock_client_def split: prod.splits)

lemma del_each_mock:
  "snd (del_each (mock_client ext) ks st) = st\<lparr>mockStorage := filter (\<lambda>p. fst p \<notin> set ks) (mockStorage st)\<rparr>"
proof (induction ks arbitrary: st)
  case Nil
  show ?case by simp
next
  case (Cons k ks)
  have "filter (\<lambda>p. fst p \<notin> set ks) (filter (\<lambda>p. fst p \<noteq> k) (mockStorage st))
          = filter (\<lambda>p. fst p \<notin> set (k # ks)) (mockStorage st)"
    by (induction "mockStorage st") auto
  then show ?case
    using Cons[of "snd (mock_del k st)"] by (simp add: cdel_mock mock_del_snd case_prod_beta)
qed

lemma ckeys_mock: "ckeys (mock_client ext) p st = (mock_keys ext p st, st)"
  by (simp add: mock_client_def)

lemma after_keys_mock:
  "snd (after_keys (mock_client ext) p r st)
     = st\<lparr>mockStorage := filter (\<lambda>kv. fst kv \<notin> set (case r of Inl e \<Rightarrow> [] | Inr ks \<Rightarrow> ks)) (mockStorage st)\<rparr>"
  by (cases r) (simp_all add: after_keys_def del_each_mock case_prod_beta)

lemma clearCache_mock:
  "snd (clearCache (mock_client ext) p st)
     = st\<lparr>mockStorage := filter (\<lambda>kv. fst kv \<notin> set (matched ext p st)) (mockStorage st)\<rparr>"
  by (simp add: clearCache_def ckeys_mock after_keys_mock matched_def case_prod_beta)

lemma clearCache_both_mock:
  "snd (clearCache_both (mock_client ext) p q st)
     = st\<lparr>mockStorage := filter (\<lambda>kv. fst kv \<notin> set (matched ext p st) \<and> fst kv \<notin> set (matched ext q st))
                              (mockStorage st)\<rparr>"
  by (simp add: clearCache_both_def ckeys_mock after_keys_mock matched_def case_prod_beta)

lemma mutate_mock:
  "snd (mutate cd (mock_client ext) m st)
     = (if succeeded m
        then st\<lparr>mockStorage := filter (\<lambda>kv. \<forall>p\<in>set (patterns_of m). fst kv \<notin> set (matched ext p st))
                                  (mockStorage st)\<rparr>
        else st)"
  by (cases m)
     (auto simp: mutate_simps post_students_def put_student_def delete_student_def clearCache_mock
        clearCache_both_mock case_prod_beta split: sum.splits option.splits)

lemma sent_mutate: "sent (fst (mutate cd cl m st)) = [storage_response cd m]"
  by (cases m)
     (auto simp: mutate_simps answer_def post_students_def put_student_def delete_student_def
        case_prod_beta split: sum.splits option.splits)

lemma matched_collection:
  "matched ext collection_pattern st
     = filter (\<lambda>k. \<exists>mid. k = ''students:/api/students'' @ mid \<and> (\<forall>c\<in>set mid. \<not> line_terminator c))
         (map fst (mockStorage st))"
  using mock_keys_wild[OF plain_collection, of "[]" ext st]
  by (simp add: matched_def collection_pattern_def)

lemma mock_keys_exact:
  assumes "\<forall>c\<in>set p. \<not> syntax_char c"
  shows "mock_keys ext p st = Inr (filter (\<lambda>k. k = p) (map fst (mockStorage st)))"
proof -
  have "CHR ''*'' \<notin> set p" using assms by (auto dest: plain_facts)
  then have r: "replace p ''*'' ''.*'' = p" by (rule replace_no_star)
  let ?src = "''^'' @ p @ ''$''"
  have nb: "\<not> list_ex beyond_char ?src"
    using assms by (auto simp: list_ex_iff syntax_char_def beyond_char_def)
  have bar: "CHR ''|'' \<notin> set ?src"
    using assms by (auto dest: plain_facts)
  have "items (p @ ''$'') = Some (lits p @ [Eol])"
    using items_plain[OF assms, of "''$''"] by simp
  then have "items ?src = Some (Bol # lits p @ [Eol])" by simp
  then have c: "RegExp ext ?src = Inr (test [Bol # lits p @ [Eol]])"
    using nb split_bar_none[OF bar] by (simp add: RegExp_def)
  have "Bol \<notin> set [Eol]" by simp
  then have "\<And>k. test [Bol # lits p @ [Eol]] k \<longleftrightarrow> k = p"
    unfolding test_bol using accepts_lits[where ts = "[Eol]" and p = p] by auto
  then have t: "test [Bol # lits p @ [Eol]] = (\<lambda>k. k = p)" by (intro ext)
  show ?thesis
    unfolding mock_keys_def r using c t by simp
qed

lemma plain_resource:
  "\<forall>c\<in>set i. \<not> syntax_char c \<Longrightarrow> \<forall>c\<in>set (resource_pattern i). \<not> syntax_char c"
  by (auto simp: resource_pattern_def syntax_char_def beyond_char_def)

lemma matched_resource:
  "\<forall>c\<in>set i. \<not> syntax_char c \<Longrightarrow>
   matched ext (resource_pattern i) st
     = filter (\<lambda>k. k = ''students:/api/students/'' @ i) (map fst (mockStorage st))"
  using mock_keys_exact[OF plain_resource, of i ext st]
  by (simp add: matched_def resource_pattern_def)


lemma mock_get_absent: "k \<notin> fst ` set (mockStorage st) \<Longrightarrow> mock_get k st = None"
proof -
  assume "k \<notin> fst ` set (mockStorage st)"
  then have "map_of (mockStorage st) k = None" by (simp add: map_of_eq_None_iff)
  then show ?thesis by (simp add: mock_get_def)
qed

lemma cacheData_mock_miss:
  assumes "method_name req = ''GET''" "mock_get (cacheKey req) st = None"
  shows "cacheData cd (mock_client ext) ex req nxt st =
           (\<lparr>sent = [(fst nxt, stringify cd (snd nxt))], logs = [CacheMiss (cacheKey req)], downstream = 1\<rparr>,
            mock_set (cacheKey req) (stringify cd (snd nxt))
              (Some (case ex of None \<Rightarrow> default_expireTime | Some n \<Rightarrow> n)) st)"
  using assms by (simp add: cacheData_unfold mock_client_def truthy_def Let_def)

lemma cacheData_hit:
  assumes "method_name req = ''GET''" "cget cl (cacheKey req) st = (Inr (Some c), st1)"
    "c \<noteq> []" "parse cd c = Some d"
  shows "cacheData cd cl ex req nxt st =
           (\<lparr>sent = [(200, stringify cd (Doc d))], logs = [CacheHit (cacheKey req)], downstream = 0\<rparr>, st1)"
  using assms by (simp add: cacheData_unfold truthy_def Let_def)

lemma cacheData_miss:
  assumes "method_name req = ''GET''" "cget cl (cacheKey req) st = (Inr None, st1)"
  shows "fst (cacheData cd cl (Some ttl) req nxt st) =
           \<lparr>sent = [(fst nxt, stringify cd (snd nxt))],
             logs = CacheMiss (cacheKey req) #
               (case fst (cset cl (cacheKey req) (stringify cd (snd nxt)) (Some ttl) st1) of
                  Inl e \<Rightarrow> [RedisCacheError e] | Inr ok \<Rightarrow> []),
             downstream = 1\<rparr>
         \<and> snd (cacheData cd cl (Some ttl) req nxt st)
             = snd (cset cl (cacheKey req) (stringify cd (snd nxt)) (Some ttl) st1)"
  using assms by (simp add: cacheData_unfold truthy_def Let_def case_prod_beta)

lemma mock_get_nonempty: "mock_get k st = Some c \<Longrightarrow> c \<noteq> []"
  by (auto simp: mock_get_def split: option.splits if_splits)


section \<open>Failing cache operations\<close>

text \<open>
  Claim C3. For every client, whatever its operations do: a lookup that is rejected is
  logged and the request continues to the downstream handler, whose response is sent; a
  rejected write-back is logged and the response is the downstream handler's; the response
  of a mutation is the one its storage outcome determines, whether \<open>keys\<close> and \<open>del\<close>
  fail or not; every request through the middleware sends exactly one response, and
  whenever the downstream handler ran that response is the handler's own.
\<close>

theorem cache_failures_never_surface:
  "(method_name req = ''GET'' \<and> cget cl (cacheKey req) s = (Inl e, s1) \<longrightarrow>
      fst (cacheData cd cl ex req nxt s) =
        \<lparr>sent = [(fst nxt, stringify cd (snd nxt))], logs = [MiddlewareError e], downstream = 1\<rparr>)
   \<and> (method_name req = ''GET'' \<and> cget cl' (cacheKey req) s' = (Inr None, s1')
        \<and> cset cl' (cacheKey req) (stringify cd (snd nxt)) (Some ttl) s1' = (Inl e', s2') \<longrightarrow>
      fst (cacheData cd cl' (Some ttl) req nxt s') =
        \<lparr>sent = [(fst nxt, stringify cd (snd nxt))],
          logs = [CacheMiss (cacheKey req), RedisCacheError e'], downstream = 1\<rparr>)
   \<and> sent (fst (mutate cd cl2 m s2)) = [storage_response cd m]
   \<and> length (sent (fst (cacheData cd cl2 ex req nxt s2))) = 1
   \<and> (downstream (fst (cacheData cd cl2 ex req nxt s2)) = 1 \<longrightarrow>
        sent (fst (cacheData cd cl2 ex req nxt s2)) = [(fst nxt, stringify cd (snd nxt))])"
proof (intro conjI impI)
  assume "method_name req = ''GET'' \<and> cget cl (cacheKey req) s = (Inl e, s1)"
  then show "fst (cacheData cd cl ex req nxt s) =
        \<lparr>sent = [(fst nxt, stringify cd (snd nxt))], logs = [MiddlewareError e], downstream = 1\<rparr>"
    by (simp add: cacheData_unfold Let_def)
next
  assume a: "method_name req = ''GET'' \<and> cget cl' (cacheKey req) s' = (Inr None, s1')
        \<and> cset cl' (cacheKey req) (stringify cd (snd nxt)) (Some ttl) s1' = (Inl e', s2')"
  then have m: "method_name req = ''GET''" and g: "cget cl' (cacheKey req) s' = (Inr None, s1')"
    by simp_all
  show "fst (cacheData cd cl' (Some ttl) req nxt s') =
        \<lparr>sent = [(fst nxt, stringify cd (snd nxt))],
          logs = [CacheMiss (cacheKey req), RedisCacheError e'], downstream = 1\<rparr>"
    using cacheData_miss[OF m g, of cd ttl nxt] a by simp
next
  show "sent (fst (mutate cd cl2 m s2)) = [storage_response cd m]"
    by (rule sent_mutate)
next
  show "length (sent (fst (cacheData cd cl2 ex req nxt s2))) = 1"
    by (simp add: cacheData_unfold Let_def case_prod_beta split: sum.splits option.splits)
next
  assume "downstream (fst (cacheData cd cl2 ex req nxt s2)) = 1"
  then show "sent (fst (cacheData cd cl2 ex req nxt s2)) = [(fst nxt, stringify cd (snd nxt))]"
    by (simp add: cacheData_unfold Let_def case_prod_beta split: sum.splits option.splits if_splits)
qed

theorem cache_failures_never_surface_witness:
  "method_name \<lparr>method_name = ''GET'', originalUrl = ''/api/students''\<rparr> = ''GET''
   \<and> cget (fixed_client (Inl (Failure ''down'')) (Failure ''down''))
        (cacheKey \<lparr>method_name = ''GET'', originalUrl = ''/api/students''\<rparr>) ()
        = (Inl (Failure ''down''), ())
   \<and> cget (fixed_client (Inr None) (Failure ''down''))
        (cacheKey \<lparr>method_name = ''GET'', originalUrl = ''/api/students''\<rparr>) () = (Inr None, ())
   \<and> cset (fixed_client (Inr None) (Failure ''down''))
        (cacheKey \<lparr>method_name = ''GET'', originalUrl = ''/api/students''\<rparr>)
        (stringify text_codec (snd (200::nat, Doc ''[1]''))) (Some 60) () = (Inl (Failure ''down''), ())
   \<and> fst (cacheData text_codec (fixed_client (Inl (Failure ''down'')) (Failure ''down'')) (Some 60)
        \<lparr>method_name = ''GET'', originalUrl = ''/api/students''\<rparr> (200, Doc ''[1]'') ())
       = \<lparr>sent = [(200, ''[1]'')], logs = [MiddlewareError (Failure ''down'')], downstream = 1\<rparr>
   \<and> fst (cacheData text_codec (fixed_client (Inr None) (Failure ''down'')) (Some 60)
        \<lparr>method_name = ''GET'', originalUrl = ''/api/students''\<rparr> (200, Doc ''[1]'') ())
       = \<lparr>sent = [(200, ''[1]'')],
           logs = [CacheMiss ''students:/api/students'', RedisCacheError (Failure ''down'')],
           downstream = 1\<rparr>
   \<and> fst (mutate text_codec (fixed_client (Inl (Failure ''down'')) (Failure ''down''))
        (Update ''7'' (Inr (Some ''{}''))) ())
       = \<lparr>sent = [(200, ''{}'')], logs = [ClearError (Failure ''down''), ClearError (Failure ''down'')]\<rparr>"
  using cache_failures_never_surface [of "\<lparr>method_name = ''GET'', originalUrl = ''/api/students''\<rparr>"
      "fixed_client (Inl (Failure ''down'')) (Failure ''down'')" "()" "Failure ''down''" "()"
      text_codec "Some 60" "(200, Doc ''[1]'')"
      "fixed_client (Inr None) (Failure ''down'')" "()" "()" 60 "Failure ''down''" "()"
      "fixed_client (Inl (Failure ''down'')) (Failure ''down'')" "Update ''7'' (Inr (Some ''{}''))" "()"]
  by (simp add: fixed_client_def text_codec_def cacheKey_def namespace_def cacheData_unfold Let_def
      truthy_def mutate_simps answer_def put_student_def clearCache_both_def after_keys_def)

section \<open>Invalidation by the mutation routes\<close>



lemmas eval_defs = mutate_simps answer_def put_student_def post_students_def delete_student_def clearCache_def
  clearCache_both_def after_keys_def mock_client_def mock_keys_def RegExp_def mock_del_def
  beyond_char_def syntax_char_def test_def atom_of_def line_terminator_def matched_def
  collection_pattern_def resource_pattern_def mock_get_def delete_as_filter


section \<open>The key namespace\<close>

text \<open>
  The single-resource pattern of the identifier \<open>x|y\<close> enumerates the key \<open>other:y\<close>, which
  is outside the namespace, and the update of that resource deletes it: the pattern is
  compiled as the alternation \<open>^students:/api/students/x|y$\<close>.
\<close>

theorem resource_pattern_crosses_namespace:
  "matched no_ext (resource_pattern ''x|y'') \<lparr>mockStorage = [(''other:y'', ''v'')], timers = [], clock = 0\<rparr>
     = [''other:y'']
   \<and> \<not> in_namespace ''other:y''
   \<and> mockStorage (snd (mutate text_codec (mock_client no_ext) (Update ''x|y'' (Inr (Some ''{}'')))
        \<lparr>mockStorage = [(''other:y'', ''v'')], timers = [], clock = 0\<rparr>)) = []"
  by (simp add: eval_defs in_namespace_def namespace_def)

lemma in_namespace_collection: "k \<in> set (matched ext collection_pattern st) \<Longrightarrow> in_namespace k"
  unfolding matched_collection by (auto simp: in_namespace_def namespace_def)

lemma in_namespace_resource:
  "\<forall>c\<in>set i. \<not> syntax_char c \<Longrightarrow> k \<in> set (matched ext (resource_pattern i) st) \<Longrightarrow> in_namespace k"
  by (auto simp: matched_resource in_namespace_def namespace_def)

lemma storage_cacheData_mock:
  "mockStorage (snd (cacheData cd (mock_client ext) ex req nxt st)) = mockStorage st
   \<or> mockStorage (snd (cacheData cd (mock_client ext) ex req nxt st))
        = AList.update (cacheKey req) (stringify cd (snd nxt)) (mockStorage st)"
  by (auto simp: cacheData_unfold mock_client_def Let_def storage_mock_set split: option.splits)

text \<open>
  Claim C8, as the code has it. The cache key of a request is the prefix \<open>students:\<close>
  followed by the original URL (path and query string), so two requests have the same key
  exactly when they have the same original URL, and the middleware writes to the store at
  that key only. Every invalidation pattern begins with the prefix. The collection pattern
  enumerates keys of the namespace only; so does the single-resource pattern when the
  identifier contains no regular-expression syntax character, and then a mutation leaves
  every entry outside the namespace in the store.
\<close>

theorem cache_keys_in_namespace:
  "cacheKey req = ''students:'' @ originalUrl req \<and> in_namespace (cacheKey req)
   \<and> (cacheKey req = cacheKey req2 \<longleftrightarrow> originalUrl req = originalUrl req2)
   \<and> (mockStorage (snd (cacheData cd (mock_client ext) ex req nxt st)) = mockStorage st
        \<or> mockStorage (snd (cacheData cd (mock_client ext) ex req nxt st))
             = AList.update (cacheKey req) (stringify cd (snd nxt)) (mockStorage st))
   \<and> (\<forall>p\<in>set (patterns_of m). in_namespace p)
   \<and> (\<forall>k\<in>set (matched ext collection_pattern st). in_namespace k)
   \<and> ((\<forall>c\<in>set (ident_of m). \<not> syntax_char c) \<longrightarrow>
        (\<forall>p\<in>set (patterns_of m). \<forall>k\<in>set (matched ext p st). in_namespace k)
        \<and> (\<forall>kv\<in>set (mockStorage st). \<not> in_namespace (fst kv) \<longrightarrow>
              kv \<in> set (mockStorage (snd (mutate cd (mock_client ext) m st)))))"
proof (intro conjI impI ballI)
  show "cacheKey req = ''students:'' @ originalUrl req"
    by (simp add: cacheKey_def namespace_def)
  show "in_namespace (cacheKey req)"
    by (simp add: cacheKey_def in_namespace_def)
  show "cacheKey req = cacheKey req2 \<longleftrightarrow> originalUrl req = originalUrl req2"
    by (simp add: cacheKey_def)
  show "mockStorage (snd (cacheData cd (mock_client ext) ex req nxt st)) = mockStorage st
        \<or> mockStorage (snd (cacheData cd (mock_client ext) ex req nxt st))
             = AList.update (cacheKey req) (stringify cd (snd nxt)) (mockStorage st)"
    by (rule storage_cacheData_mock)
next
  fix p assume "p \<in> set (patterns_of m)"
  then show "in_namespace p"
    by (cases m)
       (auto simp: in_namespace_def namespace_def collection_pattern_def resource_pattern_def)
next
  fix k assume "k \<in> set (matched ext collection_pattern st)"
  then show "in_namespace k" by (rule in_namespace_collection)
next
  assume plain: "\<forall>c\<in>set (ident_of m). \<not> syntax_char c"
  have all: "in_namespace k" if "p \<in> set (patterns_of m)" "k \<in> set (matched ext p st)" for p k
  proof -
    from that(1) have "p = collection_pattern \<or> p = resource_pattern (ident_of m)"
      by (cases m) auto
    then show ?thesis
      using that(2) plain in_namespace_collection in_namespace_resource by blast
  qed
  {
    fix p k assume "p \<in> set (patterns_of m)" "k \<in> set (matched ext p st)"
    then show "in_namespace k" by (rule all)
  next
    fix kv assume kv: "kv \<in> set (mockStorage st)" "\<not> in_namespace (fst kv)"
    then have "\<forall>p\<in>set (patterns_of m). fst kv \<notin> set (matched ext p st)"
      using all by blast
    then show "kv \<in> set (mockStorage (snd (mutate cd (mock_client ext) m st)))"
      using kv by (simp add: mutate_mock)
  }
qed

theorem cache_keys_in_namespace_witness:
  "list_all (\<lambda>c. \<not> syntax_char c) (ident_of (Update ''7'' (Inr (Some ''{}''))))
   \<and> (''other:/foo'', ''x'') \<in> set (mockStorage
        \<lparr>mockStorage = [(''students:/api/students/7'', ''{}''), (''other:/foo'', ''x'')], timers = [], clock = 0\<rparr>)
   \<and> \<not> in_namespace (fst (''other:/foo'', ''x''))
   \<and> in_namespace ''students:/api/students/7''
   \<and> mockStorage (snd (mutate text_codec (mock_client no_ext) (Update ''7'' (Inr (Some ''{}'')))
        \<lparr>mockStorage = [(''students:/api/students/7'', ''{}''), (''other:/foo'', ''x'')], timers = [], clock = 0\<rparr>))
       = [(''other:/foo'', ''x'')]"
  using cache_keys_in_namespace [where m = "Update ''7'' (Inr (Some ''{}''))" and cd = text_codec
      and ext = no_ext
      and st = "\<lparr>mockStorage = [(''students:/api/students/7'', ''{}''), (''other:/foo'', ''x'')], timers = [], clock = 0\<rparr>"]
  by (simp add: eval_defs in_namespace_def namespace_def)

section \<open>The store under the application\<close>

lemma set_update_subset: "set (AList.update k v xs) \<subseteq> insert (k, v) (set xs)"
  by (induction xs) auto


lemma step_keeps_json_text:
  assumes "\<forall>kv\<in>set (mockStorage st). json_text cd (snd kv)" "serializable_step cd a"
  shows "\<forall>kv\<in>set (mockStorage (step cd ext a st)). json_text cd (snd kv)"
proof (cases a)
  case (Read req ex nxt)
  have "json_text cd (stringify cd (snd nxt))"
    using assms(2) Read by (simp add: serializable_def)
  then have "\<forall>kv\<in>set (AList.update (cacheKey req) (stringify cd (snd nxt)) (mockStorage st)).
               json_text cd (snd kv)"
    using assms(1) set_update_subset[of "cacheKey req" "stringify cd (snd nxt)" "mockStorage st"]
    by auto
  then show ?thesis
    using Read assms(1) storage_cacheData_mock[of cd ext ex req nxt st] by auto
next
  case (Write m)
  then show ?thesis using assms(1) by (auto simp: mutate_mock)
next
  case (Wait d)
  then show ?thesis using assms(1) by (auto simp: elapse_def Let_def)
qed

lemma fold_keeps_json_text:
  "\<forall>kv\<in>set (mockStorage st). json_text cd (snd kv) \<Longrightarrow> list_all (serializable_step cd) steps
     \<Longrightarrow> \<forall>kv\<in>set (mockStorage (fold (step cd ext) steps st)). json_text cd (snd kv)"
proof (induction steps arbitrary: st)
  case Nil
  then show ?case by simp
next
  case (Cons a steps)
  have "\<forall>kv\<in>set (mockStorage (step cd ext a st)). json_text cd (snd kv)"
    using Cons.prems by (intro step_keeps_json_text) simp_all
  then show ?case using Cons.IH Cons.prems by simp
qed

lemma history_json_text:
  "list_all (serializable_step cd) steps
     \<Longrightarrow> \<forall>kv\<in>set (mockStorage (history cd ext steps)). json_text cd (snd kv)"
  unfolding history_def by (rule fold_keeps_json_text) (simp_all add: empty_mock_def)

lemma present_json_hit:
  assumes "method_name req = ''GET''" "\<forall>kv\<in>set (mockStorage st). json_text cd (snd kv)"
    "cacheKey req \<in> fst ` set (mockStorage st)"
  shows "\<exists>c d. map_of (mockStorage st) (cacheKey req) = Some c \<and> parse cd c = Some d \<and>
           cacheData cd (mock_client ext) ex req nxt st =
             (\<lparr>sent = [(200, stringify cd (Doc d))], logs = [CacheHit (cacheKey req)], downstream = 0\<rparr>, st)"
proof -
  obtain c where c: "map_of (mockStorage st) (cacheKey req) = Some c"
    using assms(3) by (metis map_of_eq_None_iff not_Some_eq)
  then have "(cacheKey req, c) \<in> set (mockStorage st)" by (rule map_of_SomeD)
  then have j: "json_text cd c" using assms(2) by force
  then have ne: "c \<noteq> []" by (simp add: json_text_def)
  obtain d where d: "parse cd c = Some d"
    using j by (auto simp: json_text_def split: option.splits)
  have g: "cget (mock_client ext) (cacheKey req) st = (Inr (Some c), st)"
    using c ne by (simp add: mock_client_def mock_get_def)
  have "cacheData cd (mock_client ext) ex req nxt st =
             (\<lparr>sent = [(200, stringify cd (Doc d))], logs = [CacheHit (cacheKey req)], downstream = 0\<rparr>, st)"
    by (rule cacheData_hit[OF assms(1) g ne d])
  then show ?thesis using c d by blast
qed

section \<open>The cache middleware\<close>

text \<open>
  Claim C1. The store is the fallback store in any state the application brings it to from
  the empty \<open>Map\<close> (reads through the middleware whose payloads \<open>JSON\<close> serializes,
  mutations, passing time), or any client where said so. For every GET request:
  if the computed key is present in the store, the cached payload is deserialized and sent
  (once, with status 200), the downstream handler is not invoked and the store is unchanged;
  the same holds for any client whose lookup answers a text the application serialized.
  If the lookup answers the absent indicator, the downstream handler is invoked once, its
  payload is serialized and stored under the key with the route's TTL (60 seconds for the
  list route, 30 for the search route), and the original response is sent once.
  Consequently, for a payload \<open>JSON\<close> serializes: the first call, with the key absent, is a
  miss (downstream invoked); the identical call that follows immediately is a hit
  (downstream not invoked, whatever it would have answered); both send the same body. This
  holds for any client that reads back what the write-back stored, and for the fallback
  store in every state.
\<close>

theorem read_through_hit_and_miss:
  "(method_name req = ''GET'' \<and> list_all (serializable_step cd) steps
      \<and> cacheKey req \<in> fst ` set (mockStorage (history cd ext steps)) \<longrightarrow>
      (\<exists>c d. map_of (mockStorage (history cd ext steps)) (cacheKey req) = Some c \<and> parse cd c = Some d \<and>
         cacheData cd (mock_client ext) ex req nxt (history cd ext steps) =
           (\<lparr>sent = [(200, stringify cd (Doc d))], logs = [CacheHit (cacheKey req)], downstream = 0\<rparr>,
            history cd ext steps)))
   \<and> (method_name req1 = ''GET'' \<and> serializable cd p \<and> cget cl1 (cacheKey req1) s = (Inr (Some (stringify cd p)), s') \<longrightarrow>
        (\<exists>d. parse cd (stringify cd p) = Some d \<and>
           cacheData cd cl1 ex req1 nxt s =
             (\<lparr>sent = [(200, stringify cd (Doc d))], logs = [CacheHit (cacheKey req1)], downstream = 0\<rparr>, s')))
   \<and> (method_name req2 = ''GET'' \<and> cget cl2 (cacheKey req2) t = (Inr None, t') \<longrightarrow>
        sent (fst (cacheData cd cl2 (Some ttl) req2 nxt t)) = [(fst nxt, stringify cd (snd nxt))]
        \<and> downstream (fst (cacheData cd cl2 (Some ttl) req2 nxt t)) = 1
        \<and> snd (cacheData cd cl2 (Some ttl) req2 nxt t)
            = snd (cset cl2 (cacheKey req2) (stringify cd (snd nxt)) (Some ttl) t'))
   \<and> (method_name req3 = ''GET'' \<and> mock_get (cacheKey req3) st = None \<longrightarrow>
        snd (get_students cd (mock_client ext) req3 found st)
          = mock_set (cacheKey req3) (stringify cd (snd (find_handler found))) (Some 60) st
        \<and> snd (search_students cd (mock_client ext) req3 found st)
          = mock_set (cacheKey req3) (stringify cd (snd (find_handler found))) (Some 30) st)
   \<and> (method_name req4 = ''GET'' \<and> serializable cd (snd nxt4)
        \<and> cget cl4 (cacheKey req4) u = (Inr None, u1)
        \<and> cset cl4 (cacheKey req4) (stringify cd (snd nxt4)) (Some ttl4) u1 = (w, u2)
        \<and> cget cl4 (cacheKey req4) u2 = (Inr (Some (stringify cd (snd nxt4))), u3) \<longrightarrow>
        downstream (fst (cacheData cd cl4 (Some ttl4) req4 nxt4 u)) = 1
        \<and> sent (fst (cacheData cd cl4 (Some ttl4) req4 nxt4 u)) = [(fst nxt4, stringify cd (snd nxt4))]
        \<and> downstream (fst (cacheData cd cl4 (Some ttl4) req4 nxt5
              (snd (cacheData cd cl4 (Some ttl4) req4 nxt4 u)))) = 0
        \<and> sent (fst (cacheData cd cl4 (Some ttl4) req4 nxt5
              (snd (cacheData cd cl4 (Some ttl4) req4 nxt4 u)))) = [(200, stringify cd (snd nxt4))])
   \<and> (method_name req5 = ''GET'' \<and> serializable cd (snd nxt6)
        \<and> cacheKey req5 \<notin> fst ` set (mockStorage st5) \<longrightarrow>
        downstream (fst (cacheData cd (mock_client ext) ex req5 nxt6 st5)) = 1
        \<and> sent (fst (cacheData cd (mock_client ext) ex req5 nxt6 st5)) = [(fst nxt6, stringify cd (snd nxt6))]
        \<and> downstream (fst (cacheData cd (mock_client ext) ex req5 nxt7
              (snd (cacheData cd (mock_client ext) ex req5 nxt6 st5)))) = 0
        \<and> sent (fst (cacheData cd (mock_client ext) ex req5 nxt7
              (snd (cacheData cd (mock_client ext) ex req5 nxt6 st5)))) = [(200, stringify cd (snd nxt6))])"
proof (intro conjI impI)
  assume "method_name req = ''GET'' \<and> list_all (serializable_step cd) steps
      \<and> cacheKey req \<in> fst ` set (mockStorage (history cd ext steps))"
  then show "\<exists>c d. map_of (mockStorage (history cd ext steps)) (cacheKey req) = Some c \<and> parse cd c = Some d \<and>
         cacheData cd (mock_client ext) ex req nxt (history cd ext steps) =
           (\<lparr>sent = [(200, stringify cd (Doc d))], logs = [CacheHit (cacheKey req)], downstream = 0\<rparr>,
            history cd ext steps)"
    using present_json_hit[of req "history cd ext steps" cd ext ex nxt] history_json_text[of cd steps ext]
    by simp
next
  assume a: "method_name req1 = ''GET'' \<and> serializable cd p
      \<and> cget cl1 (cacheKey req1) s = (Inr (Some (stringify cd p)), s')"
  then have j: "json_text cd (stringify cd p)" by (simp add: serializable_def)
  then obtain d where d: "parse cd (stringify cd p) = Some d"
    by (auto simp: json_text_def split: option.splits)
  have "stringify cd p \<noteq> []" using j by (simp add: json_text_def)
  then have "cacheData cd cl1 ex req1 nxt s =
      (\<lparr>sent = [(200, stringify cd (Doc d))], logs = [CacheHit (cacheKey req1)], downstream = 0\<rparr>, s')"
    using a d by (intro cacheData_hit) simp_all
  then show "\<exists>d. parse cd (stringify cd p) = Some d \<and>
           cacheData cd cl1 ex req1 nxt s =
             (\<lparr>sent = [(200, stringify cd (Doc d))], logs = [CacheHit (cacheKey req1)], downstream = 0\<rparr>, s')"
    using d by blast
next
  assume a: "method_name req2 = ''GET'' \<and> cget cl2 (cacheKey req2) t = (Inr None, t')"
  then have m: "method_name req2 = ''GET''" and g: "cget cl2 (cacheKey req2) t = (Inr None, t')"
    by simp_all
  note r = cacheData_miss[OF m g, of cd ttl nxt]
  show "sent (fst (cacheData cd cl2 (Some ttl) req2 nxt t)) = [(fst nxt, stringify cd (snd nxt))]"
    using r by simp
  show "downstream (fst (cacheData cd cl2 (Some ttl) req2 nxt t)) = 1"
    using r by simp
  show "snd (cacheData cd cl2 (Some ttl) req2 nxt t)
            = snd (cset cl2 (cacheKey req2) (stringify cd (snd nxt)) (Some ttl) t')"
    using r by simp
next
  assume a: "method_name req3 = ''GET'' \<and> mock_get (cacheKey req3) st = None"
  then have m: "method_name req3 = ''GET''" and g: "mock_get (cacheKey req3) st = None"
    by simp_all
  show "snd (get_students cd (mock_client ext) req3 found st)
          = mock_set (cacheKey req3) (stringify cd (snd (find_handler found))) (Some 60) st"
    unfolding get_students_def
    using cacheData_mock_miss[OF m g, of cd ext "Some 60" "find_handler found"] by simp
  show "snd (search_students cd (mock_client ext) req3 found st)
          = mock_set (cacheKey req3) (stringify cd (snd (find_handler found))) (Some 30) st"
    unfolding search_students_def
    using cacheData_mock_miss[OF m g, of cd ext "Some 30" "find_handler found"] by simp
next
  let ?v = "stringify cd (snd nxt4)"
  assume a: "method_name req4 = ''GET'' \<and> serializable cd (snd nxt4)
        \<and> cget cl4 (cacheKey req4) u = (Inr None, u1)
        \<and> cset cl4 (cacheKey req4) (stringify cd (snd nxt4)) (Some ttl4) u1 = (w, u2)
        \<and> cget cl4 (cacheKey req4) u2 = (Inr (Some (stringify cd (snd nxt4))), u3)"
  then have m: "method_name req4 = ''GET''" and g: "cget cl4 (cacheKey req4) u = (Inr None, u1)"
    and w: "cset cl4 (cacheKey req4) ?v (Some ttl4) u1 = (w, u2)"
    and g2: "cget cl4 (cacheKey req4) u2 = (Inr (Some ?v), u3)"
    and j: "json_text cd ?v"
    by (simp_all add: serializable_def)
  obtain d where d: "parse cd ?v = Some d" "stringify cd (Doc d) = ?v"
    using j by (auto simp: json_text_def split: option.splits)
  have ne: "?v \<noteq> []" using j by (simp add: json_text_def)
  note first = cacheData_miss[OF m g, of cd ttl4 nxt4]
  have st: "snd (cacheData cd cl4 (Some ttl4) req4 nxt4 u) = u2"
    using first w by simp
  have second: "cacheData cd cl4 (Some ttl4) req4 nxt5 u2 =
      (\<lparr>sent = [(200, stringify cd (Doc d))], logs = [CacheHit (cacheKey req4)], downstream = 0\<rparr>, u3)"
    by (rule cacheData_hit[OF m g2 ne d(1)])
  show "downstream (fst (cacheData cd cl4 (Some ttl4) req4 nxt4 u)) = 1"
    using first by simp
  show "sent (fst (cacheData cd cl4 (Some ttl4) req4 nxt4 u)) = [(fst nxt4, stringify cd (snd nxt4))]"
    using first by simp
  show "downstream (fst (cacheData cd cl4 (Some ttl4) req4 nxt5
              (snd (cacheData cd cl4 (Some ttl4) req4 nxt4 u)))) = 0"
    unfolding st using second by simp
  show "sent (fst (cacheData cd cl4 (Some ttl4) req4 nxt5
              (snd (cacheData cd cl4 (Some ttl4) req4 nxt4 u)))) = [(200, stringify cd (snd nxt4))]"
    unfolding st using second d(2) by simp
next
  let ?ttl = "Some (case ex of None \<Rightarrow> default_expireTime | Some n \<Rightarrow> n)"
  let ?v = "stringify cd (snd nxt6)"
  let ?st1 = "mock_set (cacheKey req5) ?v ?ttl st5"
  assume a: "method_name req5 = ''GET'' \<and> serializable cd (snd nxt6)
        \<and> cacheKey req5 \<notin> fst ` set (mockStorage st5)"
  then have m: "method_name req5 = ''GET''" and j: "json_text cd ?v"
    and ab: "cacheKey req5 \<notin> fst ` set (mockStorage st5)"
    by (simp_all add: serializable_def)
  have g: "mock_get (cacheKey req5) st5 = None" using ab by (rule mock_get_absent)
  obtain d where d: "parse cd ?v = Some d" "stringify cd (Doc d) = ?v"
    using j by (auto simp: json_text_def split: option.splits)
  have ne: "?v \<noteq> []" using j by (simp add: json_text_def)
  have first: "cacheData cd (mock_client ext) ex req5 nxt6 st5 =
      (\<lparr>sent = [(fst nxt6, ?v)], logs = [CacheMiss (cacheKey req5)], downstream = 1\<rparr>, ?st1)"
    using cacheData_mock_miss[OF m g] by simp
  have "mock_get (cacheKey req5) ?st1 = Some ?v"
    using ne by (simp add: mock_get_set)
  then have cg: "cget (mock_client ext) (cacheKey req5) ?st1 = (Inr (Some ?v), ?st1)"
    by (simp add: mock_client_def)
  have second: "cacheData cd (mock_client ext) ex req5 nxt7 ?st1 =
      (\<lparr>sent = [(200, stringify cd (Doc d))], logs = [CacheHit (cacheKey req5)], downstream = 0\<rparr>, ?st1)"
    by (rule cacheData_hit[OF m cg ne d(1)])
  show "downstream (fst (cacheData cd (mock_client ext) ex req5 nxt6 st5)) = 1"
    using first by simp
  show "sent (fst (cacheData cd (mock_client ext) ex req5 nxt6 st5)) = [(fst nxt6, stringify cd (snd nxt6))]"
    using first by simp
  show "downstream (fst (cacheData cd (mock_client ext) ex req5 nxt7
              (snd (cacheData cd (mock_client ext) ex req5 nxt6 st5)))) = 0"
    using first second by simp
  show "sent (fst (cacheData cd (mock_client ext) ex req5 nxt7
              (snd (cacheData cd (mock_client ext) ex req5 nxt6 st5)))) = [(200, stringify cd (snd nxt6))]"
    using first second d(2) by simp
qed

theorem read_through_hit_and_miss_witness:
  "method_name \<lparr>method_name = ''GET'', originalUrl = ''/api/students''\<rparr> = ''GET''
   \<and> list_all (serializable_step text_codec)
         [Read \<lparr>method_name = ''GET'', originalUrl = ''/api/students''\<rparr> (Some 60) (200, Doc ''[1]'')]
   \<and> cacheKey \<lparr>method_name = ''GET'', originalUrl = ''/api/students''\<rparr>
        \<in> fst ` set (mockStorage (history text_codec no_ext
              [Read \<lparr>method_name = ''GET'', originalUrl = ''/api/students''\<rparr> (Some 60) (200, Doc ''[1]'')]))
   \<and> serializable text_codec (Doc ''[1]'')
   \<and> cget (fixed_client (Inr (Some ''[1]'')) (Failure ''down''))
        (cacheKey \<lparr>method_name = ''GET'', originalUrl = ''/api/students''\<rparr>) ()
        = (Inr (Some (stringify text_codec (Doc ''[1]''))), ())
   \<and> cget (fixed_client (Inr None) (Failure ''down''))
        (cacheKey \<lparr>method_name = ''GET'', originalUrl = ''/api/students''\<rparr>) () = (Inr None, ())
   \<and> mock_get (cacheKey \<lparr>method_name = ''GET'', originalUrl = ''/api/students''\<rparr>) empty_mock = None
   \<and> cget (mock_client no_ext) (cacheKey \<lparr>method_name = ''GET'', originalUrl = ''/api/students''\<rparr>)
        empty_mock = (Inr None, empty_mock)
   \<and> cset (mock_client no_ext) (cacheKey \<lparr>method_name = ''GET'', originalUrl = ''/api/students''\<rparr>)
        (stringify text_codec (snd (200::nat, Doc ''[1]''))) (Some 60) empty_mock
        = (Inr ''OK'', mock_set ''students:/api/students'' ''[1]'' (Some 60) empty_mock)
   \<and> cget (mock_client no_ext) (cacheKey \<lparr>method_name = ''GET'', originalUrl = ''/api/students''\<rparr>)
        (mock_set ''students:/api/students'' ''[1]'' (Some 60) empty_mock)
        = (Inr (Some (stringify text_codec (snd (200::nat, Doc ''[1]'')))),
           mock_set ''students:/api/students'' ''[1]'' (Some 60) empty_mock)
   \<and> cacheKey \<lparr>method_name = ''GET'', originalUrl = ''/api/students''\<rparr>
        \<notin> fst ` set (mockStorage empty_mock)
   \<and> cacheData text_codec (mock_client no_ext) (Some 60)
        \<lparr>method_name = ''GET'', originalUrl = ''/api/students''\<rparr> (500, ErrorObj ''db'')
        (history text_codec no_ext
           [Read \<lparr>method_name = ''GET'', originalUrl = ''/api/students''\<rparr> (Some 60) (200, Doc ''[1]'')])
       = (\<lparr>sent = [(200, ''[1]'')], logs = [CacheHit ''students:/api/students''], downstream = 0\<rparr>,
          \<lparr>mockStorage = [(''students:/api/students'', ''[1]'')],
            timers = [(60000, ''students:/api/students'')], clock = 0\<rparr>)
   \<and> timers (snd (search_students text_codec (mock_client no_ext)
        \<lparr>method_name = ''GET'', originalUrl = ''/api/students''\<rparr> (Inr ''[1]'') empty_mock))
       = [(30000, ''students:/api/students'')]"
  using read_through_hit_and_miss [where req = "\<lparr>method_name = ''GET'', originalUrl = ''/api/students''\<rparr>"
      and cd = text_codec and ext = no_ext and ex = "Some 60" and nxt = "(500, ErrorObj ''db'')"
      and steps = "[Read \<lparr>method_name = ''GET'', originalUrl = ''/api/students''\<rparr> (Some 60) (200, Doc ''[1]'')]"
      and ?req1.0 = "\<lparr>method_name = ''GET'', originalUrl = ''/api/students''\<rparr>" and p = "Doc ''[1]''"
      and ?cl1.0 = "fixed_client (Inr (Some ''[1]'')) (Failure ''down'')" and s = "()" and s' = "()"
      and ?req2.0 = "\<lparr>method_name = ''GET'', originalUrl = ''/api/students''\<rparr>"
      and ?cl2.0 = "fixed_client (Inr None) (Failure ''down'')" and t = "()" and t' = "()" and ttl = 60
      and ?req3.0 = "\<lparr>method_name = ''GET'', originalUrl = ''/api/students''\<rparr>" and st = empty_mock
      and found = "Inr ''[1]''"
      and ?req4.0 = "\<lparr>method_name = ''GET'', originalUrl = ''/api/students''\<rparr>"
      and ?nxt4.0 = "(200, Doc ''[1]'')" and ?cl4.0 = "mock_client no_ext" and u = empty_mock
      and ?u1.0 = empty_mock and ?ttl4.0 = 60 and w = "Inr ''OK''"
      and ?u2.0 = "mock_set ''students:/api/students'' ''[1]'' (Some 60) empty_mock"
      and ?u3.0 = "mock_set ''students:/api/students'' ''[1]'' (Some 60) empty_mock"
      and ?req5.0 = "\<lparr>method_name = ''GET'', originalUrl = ''/api/students''\<rparr>"
      and ?nxt6.0 = "(200, Doc ''[1]'')" and ?st5.0 = empty_mock]
  by (simp add: fixed_client_def text_codec_def cacheKey_def namespace_def mock_get_def empty_mock_def
      mock_set_def timeout_delay_def find_handler_def history_def cacheData_unfold mock_client_def
      truthy_def serializable_def json_text_def Let_def)

section \<open>Reads after a mutation\<close>











end
